theory Spec2Isabelle
  imports Complex_Main "HOL-Library.Char_ord" "HOL-Library.List_Lexorder" "HOL-Library.Multiset"
begin

section \<open>Orofacial analysis pipeline: shallow embedding\<close>

text \<open>
  The source is \<^verbatim>\<open>pipeline/oralfacial_analysis.py\<close>. Python exceptions are values of
  \<open>py_error\<close>; a computation that may raise returns \<open>py_error + 'a\<close>. Measured
  floating-point values are modelled as \<open>real\<close> (exact arithmetic); the result of a
  floating-point division, which NumPy lets be an infinity or NaN instead of raising, is a
  \<open>np_float\<close>. Trial identifiers and array indices are \<open>int\<close> or \<open>nat\<close>.
\<close>

datatype py_error = IndexError | ValueError | UnboundLocalError | ZeroDivisionError | LinAlgError

datatype np_float = Fin real | PosInf | NegInf | NaN

subsection \<open>Train/test holdout (GLMFit.make, GLMFitCAE.make)\<close>

text \<open>Python slice \<^verbatim>\<open>xs[::5]\<close>.\<close>

fun slice_step5 :: "'a list \<Rightarrow> 'a list" where
  "slice_step5 [] = []"
| "slice_step5 (x # xs) = x # slice_step5 (drop 4 xs)"

text \<open>\<^verbatim>\<open>np.unique\<close>: the sorted distinct values.\<close>

definition np_unique :: "int list \<Rightarrow> int list" where
  "np_unique xs = sort (remdups xs)"

text \<open>\<^verbatim>\<open>np.setdiff1d(a, b)\<close>: the sorted distinct values of \<open>a\<close> that are not in \<open>b\<close>.\<close>

definition setdiff1d :: "int list \<Rightarrow> int list \<Rightarrow> int list" where
  "setdiff1d a b = filter (\<lambda>x. x \<notin> set (np_unique b)) (np_unique a)"

definition first_index :: "int list \<Rightarrow> int \<Rightarrow> nat" where
  "first_index ys v = length (takeWhile (\<lambda>y. y \<noteq> v) ys)"

text \<open>
  Third result of \<^verbatim>\<open>np.intersect1d(a, b, return_indices=True)\<close>: for each common value,
  in increasing order, the index of its first occurrence in \<open>b\<close>.
\<close>

definition intersect1d_ind2 :: "int list \<Rightarrow> int list \<Rightarrow> nat list" where
  "intersect1d_ind2 a b = map (first_index b) (filter (\<lambda>v. v \<in> set b) (np_unique a))"

text \<open>
  GLMFitCAE.make, lines 1091-1092: \<^verbatim>\<open>test_t = trial_key_o[::5]\<close>,
  \<^verbatim>\<open>trial_key = np.setdiff1d(trial_key_o, test_t)\<close>. Result: (test, train).
\<close>

definition holdout_cae :: "int list \<Rightarrow> int list \<times> int list" where
  "holdout_cae trial_key_o =
     (let test_t = slice_step5 trial_key_o;
          trial_key = setdiff1d trial_key_o test_t
      in (test_t, trial_key))"

text \<open>
  GLMFit.make, lines 300-305. The results are one-based positions into the ordered trial
  list; the code later reads row \<^verbatim>\<open>p - 1\<close> for each position \<open>p\<close>.
\<close>

definition holdout_glmfit :: "int list \<Rightarrow> nat list \<times> nat list" where
  "holdout_glmfit trial_key_o =
     (let test_t_o = slice_step5 trial_key_o;
          test_t = map (\<lambda>p. p + 1) (intersect1d_ind2 test_t_o trial_key_o);
          trial_key0 = setdiff1d trial_key_o test_t_o;
          trial_key = map (\<lambda>p. p + 1) (intersect1d_ind2 trial_key0 trial_key_o)
      in (test_t, trial_key))"

text \<open>Rows selected by one-based positions: \<^verbatim>\<open>rows[pos - 1]\<close>.\<close>

definition rows_at :: "'a list \<Rightarrow> nat list \<Rightarrow> 'a list" where
  "rows_at rows pos = map (\<lambda>p. rows ! (p - 1)) pos"

subsection \<open>String-keyed trial reordering (WhiskerTuning.make, GLMFit.make)\<close>

definition digit_char :: "nat \<Rightarrow> char" where
  "digit_char d = char_of (48 + d)"

text \<open>Decimal form of a non-negative integer, as \<^verbatim>\<open>d.astype(str)\<close> gives it.\<close>

fun str_nat :: "nat \<Rightarrow> string" where
  "str_nat n = (if n < 10 then [digit_char n]
                else str_nat (n div 10) @ [digit_char (n mod 10)])"

declare str_nat.simps [simp del]

text \<open>
  Lines 210-212 (and 465-467): strings are compared as Python compares them, character by
  character with a proper prefix smaller; \<^verbatim>\<open>sorted\<close> is stable.
  \<^verbatim>\<open>
  trial_idx_nat = [d.astype(str) for d in np.arange(num_trial_w)]
  trial_idx_nat = sorted(range(len(trial_idx_nat)), key=lambda k: trial_idx_nat[k])
  trial_idx_nat = sorted(range(len(trial_idx_nat)), key=lambda k: trial_idx_nat[k])
  \<close>
\<close>

definition trial_idx_nat :: "nat \<Rightarrow> nat list" where
  "trial_idx_nat num_trial_w =
     (let t0 = map str_nat [0..<num_trial_w];
          t1 = sort_key (\<lambda>k. t0 ! k) [0..<length t0];
          t2 = sort_key (\<lambda>k. t1 ! k) [0..<length t1]
      in t2)"

text \<open>Row selection by an index list: \<^verbatim>\<open>session_traces_w[trial_idx_nat, :]\<close>.\<close>

definition reorder_rows :: "'a list \<Rightarrow> nat list \<Rightarrow> 'a list" where
  "reorder_rows rows idx = map (\<lambda>i. rows ! i) idx"

subsection \<open>Bad-video annotations and trial exclusion (JawTuning.make, GLMFit.make)\<close>

text \<open>One row of the BadVideo table; a null blob is fetched as \<^verbatim>\<open>None\<close>.\<close>

record bad_video =
  bad_trial_side :: "int list option"
  bad_trial_bot :: "int list option"
  miss_trial_side :: "int list option"
  miss_trial_bot :: "int list option"

text \<open>
  A fetched column is the list of that field over the rows matching the session key.
  \<^verbatim>\<open>if (col[0] is None): col[0] = np.array([0])\<close>, followed by the read \<^verbatim>\<open>col[0]\<close>;
  indexing an empty fetch result raises.
\<close>

definition first_or_sentinel :: "int list option list \<Rightarrow> py_error + int list" where
  "first_or_sentinel col =
     (case col of
        [] \<Rightarrow> Inl IndexError
      | v # _ \<Rightarrow> Inr (case v of None \<Rightarrow> [0] | Some a \<Rightarrow> a))"

text \<open>
  \<^verbatim>\<open>table - [{'trial': tr} for tr in bad]\<close> fetched with \<^verbatim>\<open>order_by='trial'\<close>: the
  trials of the table, in order, that match none of the listed identifiers.
\<close>

definition minus_trials :: "int list \<Rightarrow> int list \<Rightarrow> int list" where
  "minus_trials trials bad = filter (\<lambda>t. t \<notin> set bad) trials"

text \<open>JawTuning.make, lines 45-49.\<close>

definition jaw_selected_trials :: "bad_video list \<Rightarrow> int list \<Rightarrow> py_error + int list" where
  "jaw_selected_trials rows trials =
     (case first_or_sentinel (map miss_trial_side rows) of
        Inl e \<Rightarrow> Inl e
      | Inr miss \<Rightarrow> Inr (minus_trials trials miss))"

text \<open>GLMFit.make, lines 270-280: the four columns, tested in the source's order.\<close>

definition glmfit_bad_trials :: "bad_video list \<Rightarrow> py_error + int list" where
  "glmfit_bad_trials rows =
     (case first_or_sentinel (map bad_trial_side rows) of Inl e \<Rightarrow> Inl e | Inr bs \<Rightarrow>
     (case first_or_sentinel (map miss_trial_side rows) of Inl e \<Rightarrow> Inl e | Inr ms \<Rightarrow>
     (case first_or_sentinel (map bad_trial_bot rows) of Inl e \<Rightarrow> Inl e | Inr bb \<Rightarrow>
     (case first_or_sentinel (map miss_trial_bot rows) of Inl e \<Rightarrow> Inl e | Inr mb \<Rightarrow>
        Inr (bs @ bb @ ms @ mb)))))"

definition glmfit_selected_trials :: "bad_video list \<Rightarrow> int list \<Rightarrow> py_error + int list" where
  "glmfit_selected_trials rows trials =
     (case glmfit_bad_trials rows of
        Inl e \<Rightarrow> Inl e
      | Inr bad \<Rightarrow> Inr (minus_trials trials bad))"

subsection \<open>Spike-aligned phases (JawTuning.make)\<close>

text \<open>\<^verbatim>\<open>astype(int)\<close> on a float: truncation toward zero.\<close>

definition astype_int :: "real \<Rightarrow> int" where
  "astype_int x = (if 0 \<le> x then \<lfloor>x\<rfloor> else \<lceil>x\<rceil>)"

text \<open>
  \<^verbatim>\<open>xs[i]\<close> for an integer \<open>i\<close>: an index from \<open>0\<close> up to the length reads from the
  front, one from minus the length up to \<open>-1\<close> reads from the back, anything else raises.
\<close>

definition np_getitem :: "'a list \<Rightarrow> int \<Rightarrow> py_error + 'a" where
  "np_getitem xs i =
     (if 0 \<le> i \<and> i < int (length xs) then Inr (xs ! nat i)
      else if - int (length xs) \<le> i \<and> i < 0 then Inr (xs ! nat (int (length xs) + i))
      else Inl IndexError)"

text \<open>Indexing with an integer array, \<^verbatim>\<open>row[idx]\<close>.\<close>

fun np_take :: "'a list \<Rightarrow> int list \<Rightarrow> py_error + 'a list" where
  "np_take row [] = Inr []"
| "np_take row (i # is) =
     (case np_getitem row i of
        Inl e \<Rightarrow> Inl e
      | Inr v \<Rightarrow> (case np_take row is of Inl e \<Rightarrow> Inl e | Inr vs \<Rightarrow> Inr (v # vs)))"

text \<open>\<^verbatim>\<open>np.hstack\<close> of a list of one-dimensional arrays; an empty list raises.\<close>

definition np_hstack :: "'a list list \<Rightarrow> py_error + 'a list" where
  "np_hstack xss = (if xss = [] then Inl ValueError else Inr (concat xss))"

text \<open>\<^verbatim>\<open>np.median\<close> of a non-empty list.\<close>

definition np_median :: "real list \<Rightarrow> real" where
  "np_median xs =
     (let s = sort xs; n = length xs
      in if odd n then s ! (n div 2) else (s ! (n div 2 - 1) + s ! (n div 2)) / 2)"

text \<open>
  Lines 56-58. The median of an empty list is NaN, and \<^verbatim>\<open>int\<close> of it raises.
\<close>

definition sample_number_of :: "nat list \<Rightarrow> py_error + int" where
  "sample_number_of traces_length =
     (if traces_length = [] then Inl ValueError
      else Inr (astype_int (np_median (map real traces_length))))"

definition good_trial_ind_of :: "nat list \<Rightarrow> int \<Rightarrow> nat list" where
  "good_trial_ind_of traces_length sample_number =
     filter (\<lambda>i. int (traces_length ! i) = sample_number) [0..<length traces_length]"

text \<open>Lines 72-76: spike times to sample indices, kept when below \<open>num_frame\<close>.\<close>

definition spike_indices :: "nat \<Rightarrow> real \<Rightarrow> real list \<Rightarrow> int list" where
  "spike_indices num_frame fs d =
     filter (\<lambda>i. i < int num_frame) (map (\<lambda>t. astype_int (t * fs)) d)"

text \<open>
  Lines 78-80, the loop \<^verbatim>\<open>for trial_idx in range(len(good_spikes))\<close> with
  \<^verbatim>\<open>all_phase.append(phase[trial_idx][good_spikes[trial_idx]])\<close>; \<open>k\<close> is \<open>trial_idx\<close>.
\<close>

fun phase_loop :: "real list list \<Rightarrow> int list list \<Rightarrow> nat \<Rightarrow> py_error + real list list" where
  "phase_loop phase [] k = Inr []"
| "phase_loop phase (s # ss) k =
     (if k < length phase then
        (case np_take (phase ! k) s of
           Inl e \<Rightarrow> Inl e
         | Inr v \<Rightarrow> (case phase_loop phase ss (Suc k) of
                      Inl e \<Rightarrow> Inl e
                    | Inr vs \<Rightarrow> Inr (v # vs)))
      else Inl IndexError)"

definition jaw_num_frame :: nat where
  "jaw_num_frame = 1470"

text \<open>
  JawTuning.make, lines 55-82, for one unit. \<open>compute_insta_phase\<close> stands for the phase
  result of \<^verbatim>\<open>behavior_plot.compute_insta_phase_amp\<close>, which is not part of this file.
\<close>

definition jaw_all_phase ::
  "(real list list \<Rightarrow> real \<Rightarrow> real list list) \<Rightarrow> real list list \<Rightarrow> real list list \<Rightarrow> real
     \<Rightarrow> py_error + real list" where
  "jaw_all_phase compute_insta_phase session_traces all_spikes fs =
     (let traces_length = map length session_traces in
      case sample_number_of traces_length of
        Inl e \<Rightarrow> Inl e
      | Inr sample_number \<Rightarrow>
          let good_trial_ind = good_trial_ind_of traces_length sample_number;
              good_traces = map (\<lambda>i. session_traces ! i) good_trial_ind
          in if good_traces = [] then Inl ValueError
             else
               let phase = map (map (\<lambda>p. p + pi)) (compute_insta_phase good_traces fs)
               in if \<exists>i\<in>set good_trial_ind. length all_spikes \<le> i then Inl IndexError
                  else
                    let good_spikes =
                          map (\<lambda>i. spike_indices jaw_num_frame fs (all_spikes ! i)) good_trial_ind
                    in (case phase_loop phase good_spikes 0 of
                          Inl e \<Rightarrow> Inl e
                        | Inr all_phase \<Rightarrow> np_hstack all_phase))"

text \<open>The phases the loop is meant to collect: row \<open>k\<close> of the phase matrix read at the kept
  sample indices of the \<open>k\<close>-th good trial.\<close>

definition phases_at :: "real list list \<Rightarrow> int list list \<Rightarrow> real list list" where
  "phases_at phase good_spikes =
     map (\<lambda>k. map (\<lambda>j. phase ! k ! nat j) (good_spikes ! k)) [0..<length good_spikes]"

subsection \<open>Consumers of the motion-decomposition trace\<close>

text \<open>
  What one call of a table's \<^verbatim>\<open>make\<close> did: the lines printed, the records inserted, and
  the exception that left \<^verbatim>\<open>make\<close>, if any.
\<close>

record 'r make_result =
  printed :: "string list"
  inserted :: "'r list"
  raised :: "py_error option"

definition bad_video_msg :: string where
  "bad_video_msg = ''Bad videos in bottom view''"

definition svd_num_frame :: nat where
  "svd_num_frame = 1471"

text \<open>
  WhiskerTuning.make, lines 202-213. \<open>svd_len\<close> is \<^verbatim>\<open>len(session_traces_w[0][:,0])\<close>;
  \<open>rest\<close> is the remainder of \<^verbatim>\<open>make\<close>, given the trial count and the index list.
\<close>

definition whisker_tuning_svd ::
  "nat \<Rightarrow> (nat \<Rightarrow> nat list \<Rightarrow> 'r make_result) \<Rightarrow> 'r make_result" where
  "whisker_tuning_svd svd_len rest =
     (if svd_len mod svd_num_frame \<noteq> 0
      then \<lparr>printed = [bad_video_msg], inserted = [], raised = None\<rparr>
      else let num_trial_w = svd_len div svd_num_frame
           in rest num_trial_w (trial_idx_nat num_trial_w))"

text \<open>GLMFit.make, lines 457-467.\<close>

definition glmfit_svd ::
  "nat \<Rightarrow> (nat \<Rightarrow> nat list \<Rightarrow> 'r make_result) \<Rightarrow> 'r make_result" where
  "glmfit_svd svd_len rest =
     (if svd_len mod svd_num_frame \<noteq> 0
      then \<lparr>printed = [bad_video_msg], inserted = [], raised = None\<rparr>
      else let num_trial_w = svd_len div svd_num_frame
           in rest num_trial_w (trial_idx_nat num_trial_w))"

text \<open>GLMFitNoLick.make, lines 678-688 (the frame count is written as the literal 1471).\<close>

definition glmfit_nolick_svd ::
  "nat \<Rightarrow> (nat \<Rightarrow> nat list \<Rightarrow> 'r make_result) \<Rightarrow> 'r make_result" where
  "glmfit_nolick_svd svd_len rest =
     (if svd_len mod 1471 \<noteq> 0
      then \<lparr>printed = [bad_video_msg], inserted = [], raised = None\<rparr>
      else let num_trial_w = svd_len div 1471
           in rest num_trial_w (trial_idx_nat num_trial_w))"

text \<open>
  MovementTiming.make, lines 1583-1593. The \<^verbatim>\<open>return\<close> after the message is commented
  out, so control reaches \<^verbatim>\<open>np.arange(num_trial_w)\<close> on both branches; the local
  \<^verbatim>\<open>num_trial_w\<close> is bound on the else branch only, and reading an unbound local raises.
\<close>

definition movement_timing_svd ::
  "nat \<Rightarrow> (nat \<Rightarrow> nat list \<Rightarrow> 'r make_result) \<Rightarrow> 'r make_result" where
  "movement_timing_svd svd_len rest =
     (let (out, num_trial_w) =
            (if svd_len mod 1471 \<noteq> 0 then ([bad_video_msg], None)
             else ([], Some (svd_len div 1471)))
      in case num_trial_w of
           None \<Rightarrow> \<lparr>printed = out, inserted = [], raised = Some UnboundLocalError\<rparr>
         | Some n \<Rightarrow>
             (let r = rest n (trial_idx_nat n) in r\<lparr>printed := out @ printed r\<rparr>))"

subsection \<open>Shifted Poisson GLM fits (GLMFit.make, GLMFitNoLick.make)\<close>

text \<open>
  What \<^verbatim>\<open>glm_poiss.fit()\<close> returns, as far as the code reads it: the parameters, the
  response residuals, and the prediction on a design matrix.
\<close>

record glm_result =
  params :: "real list"
  resid_response :: "real list"
  predict :: "real list list \<Rightarrow> py_error + real list"

text \<open>
  The statsmodels calls are parameters: \<open>sm_GLM y X\<close> stands for
  \<^verbatim>\<open>sm.GLM(y, sm.add_constant(X), family=sm.families.Poisson(link=sm_log_Link))\<close>,
  \<open>sm_fit\<close> for \<^verbatim>\<open>.fit()\<close>; \<open>V_design_matrix\<close> and \<open>V_design_matrix_t\<close> are the train and
  test design matrices.
\<close>

record 'm glm_ctx =
  sm_GLM :: "real list \<Rightarrow> real list list \<Rightarrow> py_error + 'm"
  sm_fit :: "'m \<Rightarrow> py_error + glm_result"
  V_design_matrix :: "real list list"
  V_design_matrix_t :: "real list list"

text \<open>
  One-dimensional arrays live in a heap and are named by address, so that two variables
  bound to the same array share its contents.
\<close>

record glm_state =
  arrays :: "nat \<Rightarrow> np_float list"
  weights_t :: "real list list"
  predict_ys :: "real list list"

definition taus :: "int list" where
  "taus = [-5..5]"

definition enumerate_list :: "'a list \<Rightarrow> (nat \<times> 'a) list" where
  "enumerate_list xs = zip [0..<length xs] xs"

text \<open>\<^verbatim>\<open>np.roll(y, tau)\<close>: element \<open>j\<close> of the result is element \<open>(j - tau) mod n\<close> of \<open>y\<close>.\<close>

definition np_roll :: "'a list \<Rightarrow> int \<Rightarrow> 'a list" where
  "np_roll y tau =
     (let n = length y in map (\<lambda>j. y ! nat ((int j - tau) mod int n)) [0..<n])"

definition np_mean :: "real list \<Rightarrow> real" where
  "np_mean xs = sum_list xs / real (length xs)"

definition sum_squares :: "real list \<Rightarrow> real" where
  "sum_squares xs = sum_list (map (\<lambda>x. x ^ 2) xs)"

text \<open>
  \<^verbatim>\<open>1.0 - sse_val/sst_val\<close> with both sums built by \<^verbatim>\<open>sum(map(...))\<close>. Over two empty
  arrays both sums are the Python integer 0 and the division raises. Otherwise the
  division is NumPy's: a zero total sum of squares (constant counts) gives NaN when the
  residual sum is zero too, and minus infinity when it is not.
\<close>

definition pseudo_r2 :: "real list \<Rightarrow> real list \<Rightarrow> py_error + np_float" where
  "pseudo_r2 dev res =
     (if dev = [] \<and> res = [] then Inl ZeroDivisionError
      else if sum_squares dev = 0 then Inr (if sum_squares res = 0 then NaN else NegInf)
      else Inr (Fin (1 - sum_squares res / sum_squares dev)))"

definition centered :: "real list \<Rightarrow> real list" where
  "centered y = map (\<lambda>v. v - np_mean y) y"

text \<open>Elementwise difference of two arrays, with NumPy's broadcasting of a length-one array.\<close>

definition np_sub :: "real list \<Rightarrow> real list \<Rightarrow> py_error + real list" where
  "np_sub a b =
     (if length a = length b then Inr (map2 (-) a b)
      else if length b = 1 then Inr (map (\<lambda>x. x - hd b) a)
      else if length a = 1 then Inr (map (\<lambda>x. hd a - x) b)
      else Inl ValueError)"

text \<open>Row assignment \<^verbatim>\<open>m[i,:] = v\<close>: the lengths must agree, or \<open>v\<close> has length one.\<close>

definition set_row :: "real list list \<Rightarrow> nat \<Rightarrow> real list \<Rightarrow> py_error + real list list" where
  "set_row m i v =
     (let w = length (m ! i)
      in if length v = w then Inr (m[i := v])
         else if length v = 1 then Inr (m[i := replicate w (hd v)])
         else Inl ValueError)"

definition write_at :: "nat \<Rightarrow> nat \<Rightarrow> np_float \<Rightarrow> glm_state \<Rightarrow> glm_state" where
  "write_at a i v st = st\<lparr>arrays := (arrays st)(a := (arrays st a)[i := v])\<rparr>"

text \<open>
  GLMFit.make, lines 521-535: the body of the \<^verbatim>\<open>try\<close>, with \<^verbatim>\<open>except: pass\<close>. An
  exception at any statement ends the body and keeps the assignments made before it.
  \<open>r2s\<close> and \<open>r2s_t\<close> are the addresses the two variables are bound to.
\<close>

definition glmfit_try ::
  "'m glm_ctx \<Rightarrow> 'm \<Rightarrow> real list \<Rightarrow> real list \<Rightarrow> nat \<Rightarrow> nat \<Rightarrow> nat \<Rightarrow> glm_state \<Rightarrow> glm_state" where
  "glmfit_try ctx glm_poiss y_roll y_roll_t r2s r2s_t i st =
     (case sm_fit ctx glm_poiss of Inl e \<Rightarrow> st | Inr glm_res \<Rightarrow>
     (case pseudo_r2 (centered y_roll) (resid_response glm_res) of Inl e \<Rightarrow> st | Inr r2_in \<Rightarrow>
       (let st1 = write_at r2s i r2_in st in
        (case predict glm_res (V_design_matrix_t ctx) of Inl e \<Rightarrow> st1 | Inr y_roll_t_p \<Rightarrow>
        (case np_sub y_roll_t y_roll_t_p of Inl e \<Rightarrow> st1 | Inr d \<Rightarrow>
        (case pseudo_r2 (centered y_roll_t) d of Inl e \<Rightarrow> st1 | Inr r2_out \<Rightarrow>
          (let st2 = write_at r2s_t i r2_out st1 in
           (case set_row (predict_ys st2) i y_roll_t_p of Inl e \<Rightarrow> st2 | Inr pys \<Rightarrow>
             (let st3 = st2\<lparr>predict_ys := pys\<rparr> in
              (case set_row (weights_t st3) i (params glm_res) of
                 Inl e \<Rightarrow> st3
               | Inr w \<Rightarrow> st3\<lparr>weights_t := w\<rparr>))))))))))"

text \<open>
  Lines 516-535, one iteration. The model object is built before the \<^verbatim>\<open>try\<close>: an
  exception there leaves the loop.
\<close>

definition glmfit_tau ::
  "'m glm_ctx \<Rightarrow> real list \<Rightarrow> real list \<Rightarrow> nat \<Rightarrow> nat \<Rightarrow> nat \<times> int \<Rightarrow> glm_state
     \<Rightarrow> py_error + glm_state" where
  "glmfit_tau ctx y y_t r2s r2s_t it st =
     (let i = fst it; tau = snd it;
          y_roll = np_roll y tau;
          y_roll_t = np_roll y_t tau
      in case sm_GLM ctx y_roll (V_design_matrix ctx) of
           Inl e \<Rightarrow> Inl e
         | Inr glm_poiss \<Rightarrow> Inr (glmfit_try ctx glm_poiss y_roll y_roll_t r2s r2s_t i st))"

text \<open>
  A \<^verbatim>\<open>for\<close> loop over a list whose body may raise: the exception leaves the loop.
\<close>

fun for_loop :: "('a \<Rightarrow> 's \<Rightarrow> py_error + 's) \<Rightarrow> 'a list \<Rightarrow> 's \<Rightarrow> py_error + 's" where
  "for_loop body [] st = Inr st"
| "for_loop body (it # its) st =
     (case body it st of
        Inl e \<Rightarrow> Inl e
      | Inr st' \<Rightarrow> for_loop body its st')"

text \<open>The record appended for a unit (the fields this development speaks about).\<close>

record 'u glm_record =
  unit_key :: 'u
  r2 :: "np_float list"
  r2_t :: "np_float list"
  weights :: "real list list"
  predict_y :: "real list list"

text \<open>
  Lines 512-537 for one unit, given its binned spike counts \<open>y\<close> (train) and \<open>y_t\<close> (test).
  \<^verbatim>\<open>r2s=np.zeros(len(taus))\<close> allocates one array, at address 0;
  \<^verbatim>\<open>r2s_t=r2s\<close> binds the second name to the same array.
\<close>

definition glmfit_unit ::
  "'m glm_ctx \<Rightarrow> 'u \<times> real list \<times> real list \<Rightarrow> py_error + 'u glm_record" where
  "glmfit_unit ctx u =
     (let key = fst u; y = fst (snd u); y_t = snd (snd u);
          r2s = 0;
          heap = (\<lambda>a. [])(r2s := replicate (length taus) (Fin 0));
          r2s_t = r2s;
          st0 = \<lparr>arrays = heap,
                 weights_t = replicate (length taus) (replicate 9 0),
                 predict_ys = replicate (length taus) (replicate (length y_t) 0)\<rparr>
      in case for_loop (glmfit_tau ctx y y_t r2s r2s_t) (enumerate_list taus) st0 of
           Inl e \<Rightarrow> Inl e
         | Inr st \<Rightarrow>
             Inr \<lparr>unit_key = key, r2 = arrays st r2s, r2_t = arrays st r2s_t,
                  weights = weights_t st, predict_y = predict_ys st\<rparr>)"

text \<open>Lines 497-540: the loop over units; the records are inserted after the loop.\<close>

fun glmfit_units ::
  "'m glm_ctx \<Rightarrow> ('u \<times> real list \<times> real list) list \<Rightarrow> py_error + 'u glm_record list" where
  "glmfit_units ctx [] = Inr []"
| "glmfit_units ctx (u # us) =
     (case glmfit_unit ctx u of
        Inl e \<Rightarrow> Inl e
      | Inr r \<Rightarrow> (case glmfit_units ctx us of Inl e \<Rightarrow> Inl e | Inr rs \<Rightarrow> Inr (r # rs)))"

text \<open>
  GLMFitNoLick.make, lines 758-772: the body of the \<^verbatim>\<open>try\<close>. There is one pseudo-R2
  array, and the prediction is made on the design matrix the model was fitted on.
\<close>

definition nolick_try ::
  "'m glm_ctx \<Rightarrow> 'm \<Rightarrow> real list \<Rightarrow> nat \<Rightarrow> nat \<Rightarrow> glm_state \<Rightarrow> glm_state" where
  "nolick_try ctx glm_poiss y_roll r2s i st =
     (case sm_fit ctx glm_poiss of Inl e \<Rightarrow> st | Inr glm_res \<Rightarrow>
     (case pseudo_r2 (centered y_roll) (resid_response glm_res) of Inl e \<Rightarrow> st | Inr r2v \<Rightarrow>
       (let st1 = write_at r2s i r2v st in
        (case predict glm_res (V_design_matrix ctx) of Inl e \<Rightarrow> st1 | Inr y_roll_t_p \<Rightarrow>
        (case set_row (predict_ys st1) i y_roll_t_p of Inl e \<Rightarrow> st1 | Inr pys \<Rightarrow>
          (let st2 = st1\<lparr>predict_ys := pys\<rparr> in
           (case set_row (weights_t st2) i (params glm_res) of
              Inl e \<Rightarrow> st2
            | Inr w \<Rightarrow> st2\<lparr>weights_t := w\<rparr>)))))))"

definition nolick_tau ::
  "'m glm_ctx \<Rightarrow> real list \<Rightarrow> nat \<Rightarrow> nat \<times> int \<Rightarrow> glm_state \<Rightarrow> py_error + glm_state" where
  "nolick_tau ctx y r2s it st =
     (let i = fst it; tau = snd it;
          y_roll = np_roll y tau
      in case sm_GLM ctx y_roll (V_design_matrix ctx) of
           Inl e \<Rightarrow> Inl e
         | Inr glm_poiss \<Rightarrow> Inr (nolick_try ctx glm_poiss y_roll r2s i st))"

record 'u nolick_record =
  nl_unit_key :: 'u
  r2_nolick :: "np_float list"
  weights_nolick :: "real list list"
  predict_y_nolick :: "real list list"

text \<open>Lines 751-776 for one unit, given its binned spike counts \<open>y\<close>.\<close>

definition nolick_unit :: "'m glm_ctx \<Rightarrow> 'u \<times> real list \<Rightarrow> py_error + 'u nolick_record" where
  "nolick_unit ctx u =
     (let key = fst u; y = snd u;
          r2s = 0;
          heap = (\<lambda>a. [])(r2s := replicate (length taus) (Fin 0));
          st0 = \<lparr>arrays = heap,
                 weights_t = replicate (length taus) (replicate 9 0),
                 predict_ys = replicate (length taus) (replicate (length y) 0)\<rparr>
      in case for_loop (nolick_tau ctx y r2s) (enumerate_list taus) st0 of
           Inl e \<Rightarrow> Inl e
         | Inr st \<Rightarrow>
             Inr \<lparr>nl_unit_key = key, r2_nolick = arrays st r2s,
                  weights_nolick = weights_t st, predict_y_nolick = predict_ys st\<rparr>)"

text \<open>
  Lines 740-778: the loop over units. Each record is handed to the insert buffer as soon
  as its unit is done; the result lists the records handed over when no exception leaves
  the loop.
\<close>

fun nolick_units ::
  "'m glm_ctx \<Rightarrow> ('u \<times> real list) list \<Rightarrow> py_error + 'u nolick_record list" where
  "nolick_units ctx [] = Inr []"
| "nolick_units ctx (u # us) =
     (case nolick_unit ctx u of
        Inl e \<Rightarrow> Inl e
      | Inr r \<Rightarrow> (case nolick_units ctx us of Inl e \<Rightarrow> Inl e | Inr rs \<Rightarrow> Inr (r # rs)))"

subsection \<open>Phase histograms and tuning curves (JawTuning.make, BreathingTuning.make)\<close>

definition list_min :: "real list \<Rightarrow> real" where
  "list_min xs = fold min (tl xs) (hd xs)"

definition list_max :: "real list \<Rightarrow> real" where
  "list_max xs = fold max (tl xs) (hd xs)"

text \<open>
  The range \<^verbatim>\<open>np.histogram(a, bins=n)\<close> uses when none is given: the minimum and
  maximum of the data, \<open>(0, 1)\<close> for no data, widened by one half on each side when the two
  coincide.
\<close>

definition hist_range :: "real list \<Rightarrow> real \<times> real" where
  "hist_range a =
     (let lo = (if a = [] then 0 else list_min a);
          hi = (if a = [] then 1 else list_max a)
      in if lo = hi then (lo - 1 / 2, hi + 1 / 2) else (lo, hi))"

text \<open>
  The bin a sample falls in, for \<open>n\<close> equal-width bins on \<open>[lo, hi]\<close>: the scaled offset is
  truncated, and a sample on the last edge goes to the last bin.
\<close>

definition bin_index :: "real \<Rightarrow> real \<Rightarrow> nat \<Rightarrow> real \<Rightarrow> nat" where
  "bin_index lo hi n x =
     (let k = nat \<lfloor>(x - lo) * (real n / (hi - lo))\<rfloor>
      in if k = n then n - 1 else k)"

text \<open>\<^verbatim>\<open>np.histogram(a, bins=n)\<close> in exact arithmetic: the counts and the \<open>n + 1\<close> bin edges.\<close>

definition np_histogram :: "real list \<Rightarrow> nat \<Rightarrow> nat list \<times> real list" where
  "np_histogram a n =
     (let lo = fst (hist_range a); hi = snd (hist_range a);
          idx = map (bin_index lo hi n) a
      in (map (\<lambda>k. length (filter (\<lambda>j. j = k) idx)) [0..<n],
          map (\<lambda>k. lo + real k * (hi - lo) / real n) [0..<Suc n]))"

definition n_bins :: nat where
  "n_bins = 20"

text \<open>
  \<^verbatim>\<open>tofity / baseline * float(fs)\<close>, element by element. For an empty baseline bin the
  division does not raise: \<open>0 / 0\<close> is NaN and \<open>c / 0\<close> with \<open>c > 0\<close> is plus infinity, which
  the product with the rate keeps, negates (negative rate) or turns into NaN (zero rate).
\<close>

definition rate_value :: "nat \<Rightarrow> nat \<Rightarrow> real \<Rightarrow> np_float" where
  "rate_value c b fs =
     (if b = 0
      then (if c = 0 \<or> fs = 0 then NaN else if 0 < fs then PosInf else NegInf)
      else Fin (real c / real b * fs))"

definition rate_normalize :: "nat list \<Rightarrow> nat list \<Rightarrow> real \<Rightarrow> np_float list" where
  "rate_normalize counts baseline fs = map2 (\<lambda>c b. rate_value c b fs) counts baseline"

text \<open>
  JawTuning.make, lines 86-90 (BreathingTuning.make, lines 164-168, with the flattened phase
  matrix as \<open>phase_s\<close>). Result: \<open>(tofitx, tofity, baseline)\<close>.
  \<^verbatim>\<open>
  tofity, tofitx = np.histogram(all_phase, bins=n_bins)
  baseline, tofitx = np.histogram(phase_s, bins=n_bins)
  tofitx = tofitx[:-1] + (tofitx[1] - tofitx[0])/2
  tofity = tofity / baseline * float(fs)
  \<close>
\<close>

definition tuning_curve ::
  "real list \<Rightarrow> real list \<Rightarrow> real \<Rightarrow> real list \<times> np_float list \<times> nat list" where
  "tuning_curve all_phase phase_s fs =
     (let tofity = fst (np_histogram all_phase n_bins);
          baseline = fst (np_histogram phase_s n_bins);
          edges = snd (np_histogram phase_s n_bins);
          tofitx = map (\<lambda>e. e + (edges ! 1 - edges ! 0) / 2) (butlast edges)
      in (tofitx, rate_normalize tofity baseline fs, baseline))"

text \<open>
  A sample lies in bin \<open>k\<close> of \<open>n\<close> equal-width bins on \<open>[lo, hi]\<close>: the bins are half-open,
  except the last, which includes the right edge.
\<close>

definition in_bin :: "real \<Rightarrow> real \<Rightarrow> nat \<Rightarrow> nat \<Rightarrow> real \<Rightarrow> bool" where
  "in_bin lo hi n k x \<longleftrightarrow>
     lo + real k * (hi - lo) / real n \<le> x
     \<and> (x < lo + real (Suc k) * (hi - lo) / real n \<or> (Suc k = n \<and> x = hi))"

definition count_in_bin :: "real list \<Rightarrow> nat \<Rightarrow> nat" where
  "count_in_bin a k =
     length (filter (in_bin (fst (hist_range a)) (snd (hist_range a)) n_bins k) a)"

text \<open>
  The tuning-curve values as the specification words them (C3): counts of both phase sets
  in the same 20 equal-width bins spanning \<open>[0, 2 pi)\<close>, the spike count of a bin divided by
  the occupancy count of that bin and divided by the sampling rate.
\<close>

definition spec_bin_count :: "real list \<Rightarrow> nat \<Rightarrow> nat" where
  "spec_bin_count a k =
     length (filter (\<lambda>x. 2 * pi * real k / 20 \<le> x \<and> x < 2 * pi * real (Suc k) / 20) a)"

definition tuning_y_spec :: "real list \<Rightarrow> real list \<Rightarrow> real \<Rightarrow> real list" where
  "tuning_y_spec all_phase phase_s fs =
     map (\<lambda>k. real (spec_bin_count all_phase k) / real (spec_bin_count phase_s k) / fs)
       [0..<20]"

subsection \<open>Permutation test of the modulation index (JawTuning.make)\<close>

text \<open>
  \<^verbatim>\<open>np.random.choice(a, size)\<close>: as many draws as \<open>size\<close> says, with replacement, each an index below
  \<open>len(a)\<close> taken from the generator; \<open>randint g n\<close> is the generator's draw of an index
  below \<open>n\<close> together with its next state. An empty population with a non-zero size raises.
\<close>

fun draw_indices :: "('g \<Rightarrow> nat \<Rightarrow> nat \<times> 'g) \<Rightarrow> nat \<Rightarrow> nat \<Rightarrow> 'g \<Rightarrow> nat list \<times> 'g" where
  "draw_indices randint pop 0 g = ([], g)"
| "draw_indices randint pop (Suc sz) g =
     (let d = randint g pop; r = draw_indices randint pop sz (snd d)
      in (fst d # fst r, snd r))"

definition random_choice ::
  "('g \<Rightarrow> nat \<Rightarrow> nat \<times> 'g) \<Rightarrow> 'a list \<Rightarrow> nat \<Rightarrow> 'g \<Rightarrow> py_error + ('a list \<times> 'g)" where
  "random_choice randint a sz g =
     (if a = [] \<and> sz \<noteq> 0 then Inl ValueError
      else let r = draw_indices randint (length a) sz g
           in Inr (map (\<lambda>j. a ! j) (fst r), snd r))"

definition n_perm :: nat where
  "n_perm = 100"

text \<open>
  Lines 97-100, one iteration; the state is \<open>di_distr\<close> and the generator.
  \<open>compute_phase_tuning\<close> stands for \<^verbatim>\<open>helper_functions.compute_phase_tuning\<close>, which is
  not part of this file; it returns (preferred phase, modulation index), floats that
  need not be finite since the curve it is given need not be.
\<close>

definition perm_step ::
  "('g \<Rightarrow> nat \<Rightarrow> nat \<times> 'g) \<Rightarrow> (real list \<Rightarrow> np_float list \<Rightarrow> np_float \<times> np_float)
     \<Rightarrow> real list \<Rightarrow> nat \<Rightarrow> nat list \<Rightarrow> real list \<Rightarrow> real \<Rightarrow> nat \<Rightarrow> np_float list \<times> 'g
     \<Rightarrow> py_error + (np_float list \<times> 'g)" where
  "perm_step randint compute_phase_tuning phase_s n_spk baseline tofitx fs i_perm st =
     (case random_choice randint phase_s n_spk (snd st) of
        Inl e \<Rightarrow> Inl e
      | Inr sg \<Rightarrow>
          (let tofity_p = fst (np_histogram (fst sg) n_bins);
               tofity_p' = rate_normalize tofity_p baseline fs;
               di = snd (compute_phase_tuning tofitx tofity_p')
           in Inr ((fst st)[i_perm := di], snd sg)))"

text \<open>The \<^verbatim>\<open>alternative\<close> argument of \<^verbatim>\<open>stats.mannwhitneyu\<close>.\<close>

datatype alternative = TwoSided | Less | Greater

text \<open>
  Lines 86-102 for one unit. \<open>mannwhitneyu x ys alt\<close> stands for
  \<^verbatim>\<open>stats.mannwhitneyu(x, ys, alternative=alt)\<close>, the rank test of SciPy, which returns
  (statistic, p-value); the code passes the observed modulation index as the first sample,
  the null distribution as the second and \<^verbatim>\<open>'greater'\<close> as the alternative, and keeps the
  p-value. Result: the null distribution \<open>di_distr\<close> and the p-value \<open>di_perm\<close>.
\<close>

definition permutation_test ::
  "('g \<Rightarrow> nat \<Rightarrow> nat \<times> 'g) \<Rightarrow> (real list \<Rightarrow> np_float list \<Rightarrow> np_float \<times> np_float)
     \<Rightarrow> (np_float \<Rightarrow> np_float list \<Rightarrow> alternative \<Rightarrow> np_float \<times> np_float)
     \<Rightarrow> real list \<Rightarrow> real list \<Rightarrow> real \<Rightarrow> 'g \<Rightarrow> py_error + (np_float list \<times> np_float)" where
  "permutation_test randint compute_phase_tuning mannwhitneyu all_phase phase_s fs g =
     (let tc = tuning_curve all_phase phase_s fs;
          tofitx = fst tc; tofity = fst (snd tc); baseline = snd (snd tc);
          modulation_index = snd (compute_phase_tuning tofitx tofity);
          n_spk = length all_phase;
          di_distr = replicate n_perm (Fin 0)
      in case for_loop
                (perm_step randint compute_phase_tuning phase_s n_spk baseline tofitx fs)
                [0..<n_perm] (di_distr, g) of
           Inl e \<Rightarrow> Inl e
         | Inr st \<Rightarrow> Inr (fst st, snd (mannwhitneyu modulation_index (fst st) Greater)))"

text \<open>
  The generator's own sequence, used to say which phases a null sample holds:
  \<open>gen_state randint pop k g\<close> is the state after \<open>k\<close> draws below \<open>pop\<close> starting from \<open>g\<close>,
  \<open>gen_draw randint pop k g\<close> is draw number \<open>k\<close> (counting from 0), and
  \<open>null_sample randint phase_s n_spk g i\<close> is the list of \<open>n_spk\<close> phases read from the whole
  of \<open>phase_s\<close> at draws number \<open>i * n_spk\<close> to \<open>i * n_spk + n_spk - 1\<close>.
\<close>

definition gen_state :: "('g \<Rightarrow> nat \<Rightarrow> nat \<times> 'g) \<Rightarrow> nat \<Rightarrow> nat \<Rightarrow> 'g \<Rightarrow> 'g" where
  "gen_state randint pop k g = ((\<lambda>s. snd (randint s pop)) ^^ k) g"

definition gen_draw :: "('g \<Rightarrow> nat \<Rightarrow> nat \<times> 'g) \<Rightarrow> nat \<Rightarrow> nat \<Rightarrow> 'g \<Rightarrow> nat" where
  "gen_draw randint pop k g = fst (randint (gen_state randint pop k g) pop)"

definition null_sample ::
  "('g \<Rightarrow> nat \<Rightarrow> nat \<times> 'g) \<Rightarrow> real list \<Rightarrow> nat \<Rightarrow> 'g \<Rightarrow> nat \<Rightarrow> real list" where
  "null_sample randint phase_s n_spk g i =
     map (\<lambda>j. phase_s ! gen_draw randint (length phase_s) (i * n_spk + j) g) [0..<n_spk]"

subsection \<open>Bout detection (MovementTiming.make)\<close>

definition mt_bin_width :: real where
  "mt_bin_width = 34 / 10000"

text \<open>\<^verbatim>\<open>np.argwhere(cond)[:,0]\<close>: the indices at which a Boolean array is true.\<close>

definition argwhere :: "bool list \<Rightarrow> nat list" where
  "argwhere bs = filter (\<lambda>j. bs ! j) [0..<length bs]"

text \<open>\<^verbatim>\<open>np.diff\<close>, for a float array and for an integer (index) array.\<close>

definition np_diff :: "real list \<Rightarrow> real list" where
  "np_diff xs = map (\<lambda>j. xs ! Suc j - xs ! j) [0..<length xs - 1]"

definition np_diff_int :: "int list \<Rightarrow> int list" where
  "np_diff_int xs = map (\<lambda>j. xs ! Suc j - xs ! j) [0..<length xs - 1]"

text \<open>
  Lines 1623-1624 and 1657-1658: the onset times, the samples at which the trace is below
  the threshold and the next sample (cyclically) is not, scaled by the bin width.
  \<^verbatim>\<open>
  a_cond = (x < threshold) & (np.roll(x,-1) >= threshold)
  onset = np.argwhere(a_cond)[:,0]*bin_width
  \<close>
\<close>

definition crossing_times :: "real \<Rightarrow> real list \<Rightarrow> real list" where
  "crossing_times threshold x =
     (let a_cond = map2 (\<lambda>a b. a < threshold \<and> threshold \<le> b) x (np_roll x (- 1))
      in map (\<lambda>j. real j * mt_bin_width) (argwhere a_cond))"

text \<open>
  Lines 1626-1630 and 1660-1664: the onsets but the last, and the indices of those whose
  frequency to the next onset is inside the band.
  \<^verbatim>\<open>
  ilf = 1/np.diff(ton_onset)
  ton_onset = ton_onset[:-1]
  f_cond = (ilf>3) & (ilf<9)
  ton_onset_idx = np.argwhere(f_cond)[:,0]
  \<close>
\<close>

definition band_candidates :: "real \<Rightarrow> real \<Rightarrow> real list \<Rightarrow> real list \<times> int list" where
  "band_candidates f_lo f_hi onset0 =
     (let ilf = map (\<lambda>d. 1 / d) (np_diff onset0);
          onset = butlast onset0;
          f_cond = map (\<lambda>f. f_lo < f \<and> f < f_hi) ilf
      in (onset, map int (argwhere f_cond)))"

text \<open>
  Lines 1631-1637: candidates (all but the last two) whose successor is the next index.
  \<^verbatim>\<open>
  next_lick = np.diff(ton_onset_idx)
  for i,tongue in enumerate(ton_onset_idx[:-2]):
      if (next_lick[i]==1): lick_onset_idx.append(tongue)
  \<close>
\<close>

definition lick_onset_idx_of :: "int list \<Rightarrow> int list" where
  "lick_onset_idx_of ton_onset_idx =
     (let next_lick = np_diff_int ton_onset_idx
      in map (\<lambda>i. ton_onset_idx ! i)
           (filter (\<lambda>i. next_lick ! i = 1) [0..<length ton_onset_idx - 2]))"

text \<open>Lines 1665-1671: for whisking, the next two differences must both be one.\<close>

definition whi_onset_idx_of :: "int list \<Rightarrow> int list" where
  "whi_onset_idx_of whisker_onset_idx =
     (let next_whi = np_diff_int whisker_onset_idx
      in map (\<lambda>i. whisker_onset_idx ! i)
           (filter (\<lambda>i. next_whi ! i = 1 \<and> next_whi ! Suc i = 1)
              [0..<length whisker_onset_idx - 2]))"

text \<open>
  Lines 1638-1645 (and 1672-1679): positions in the onset-index array at which a bout
  starts and ends. Reading element 0 of an empty array raises.
  \<^verbatim>\<open>
  lick_onset_d = np.diff(lick_onset_idx)
  lick_cond_on = np.roll(lick_onset_d,1) >= 2
  lick_cond_off = lick_onset_d >= 2
  lick_bout_onset = np.argwhere(lick_cond_on)[:,0]
  lick_bout_offset = np.argwhere(lick_cond_off)[:,0]
  if lick_bout_onset[0]!=0:
      lick_bout_onset = np.concatenate((np.array([0]),lick_bout_onset))
      lick_bout_offset = np.concatenate((lick_bout_offset,np.array([len(lick_onset_idx)-1])))
  \<close>
\<close>

definition bout_bounds :: "int list \<Rightarrow> py_error + (int list \<times> int list)" where
  "bout_bounds onset_idx =
     (let onset_d = np_diff_int onset_idx;
          cond_on = map (\<lambda>v. 2 \<le> v) (np_roll onset_d 1);
          cond_off = map (\<lambda>v. 2 \<le> v) onset_d;
          bout_onset = map int (argwhere cond_on);
          bout_offset = map int (argwhere cond_off)
      in case bout_onset of
           [] \<Rightarrow> Inl IndexError
         | b # _ \<Rightarrow>
             if b \<noteq> 0
             then Inr (0 # bout_onset, bout_offset @ [int (length onset_idx) - 1])
             else Inr (bout_onset, bout_offset))"

text \<open>
  Lines 1647-1648 (and 1681-1682): the bout times.
  \<^verbatim>\<open>
  lick_onset_time=ton_onset[lick_onset_idx[lick_bout_onset]]
  lick_offset_time=ton_onset[lick_onset_idx[lick_bout_offset]+2]
  \<close>
\<close>

definition bout_times :: "real list \<Rightarrow> int list \<Rightarrow> py_error + (real list \<times> real list)" where
  "bout_times onset onset_idx =
     (case bout_bounds onset_idx of Inl e \<Rightarrow> Inl e | Inr b \<Rightarrow>
     (case np_take onset_idx (fst b) of Inl e \<Rightarrow> Inl e | Inr on_i \<Rightarrow>
     (case np_take onset on_i of Inl e \<Rightarrow> Inl e | Inr onset_time \<Rightarrow>
     (case np_take onset_idx (snd b) of Inl e \<Rightarrow> Inl e | Inr off_i \<Rightarrow>
     (case np_take onset (map (\<lambda>v. v + 2) off_i) of Inl e \<Rightarrow> Inl e | Inr offset_time \<Rightarrow>
        Inr (onset_time, offset_time))))))"

text \<open>
  The lick-bout detector, lines 1621-1648, on the tongue-detection trace, and the
  whisk-bout detector, lines 1656-1682, on the whisking amplitude. Result: the bout onset
  and offset times.
\<close>

definition lick_bouts :: "real list \<Rightarrow> py_error + (real list \<times> real list)" where
  "lick_bouts session_traces_t_l =
     (let c = band_candidates 3 9 (crossing_times (1 / 2) session_traces_t_l)
      in bout_times (fst c) (lick_onset_idx_of (snd c)))"

definition whisk_bouts :: "real list \<Rightarrow> py_error + (real list \<times> real list)" where
  "whisk_bouts amp_w =
     (let c = band_candidates 1 25 (crossing_times 1 amp_w)
      in bout_times (fst c) (whi_onset_idx_of (snd c)))"

text \<open>
  Example trace: \<open>lick_train n\<close> is \<open>n\<close> tongue detections 40 samples (0.136 s) apart, one
  uninterrupted bout of licking at 7.35 Hz.
\<close>

definition lick_train :: "nat \<Rightarrow> real list" where
  "lick_train n = concat (replicate n (replicate 39 0 @ [1]))"

subsection \<open>Predicates used to state the properties of the GLM loops\<close>

text \<open>The model object for shift number \<open>i\<close> is built, and its \<^verbatim>\<open>fit()\<close> raises.\<close>

definition fit_raises :: "'m glm_ctx \<Rightarrow> real list \<Rightarrow> nat \<Rightarrow> bool" where
  "fit_raises ctx y i \<longleftrightarrow>
     (\<exists>m e. sm_GLM ctx (np_roll y (taus ! i)) (V_design_matrix ctx) = Inr m
            \<and> sm_fit ctx m = Inl e)"

text \<open>Building the model object succeeds at every shift (it is outside the \<^verbatim>\<open>try\<close>).\<close>

definition models_built :: "'m glm_ctx \<Rightarrow> real list \<Rightarrow> bool" where
  "models_built ctx y \<longleftrightarrow>
     (\<forall>tau\<in>set taus. \<exists>m. sm_GLM ctx (np_roll y tau) (V_design_matrix ctx) = Inr m)"

text \<open>
  At shift number \<open>i\<close> every statement of the \<^verbatim>\<open>try\<close> body of GLMFit.make succeeds: the
  fit gives \<open>res\<close>, the prediction on the test matrix gives \<open>p\<close> with one value per test bin,
  the held-out pseudo-R2 is \<open>v\<close>, and there are nine parameters.
\<close>

definition glmfit_shift_succeeds ::
  "'m glm_ctx \<Rightarrow> real list \<Rightarrow> real list \<Rightarrow> nat \<Rightarrow> glm_result \<Rightarrow> real list \<Rightarrow> np_float \<Rightarrow> bool" where
  "glmfit_shift_succeeds ctx y y_t i res p v \<longleftrightarrow>
     (\<exists>m. sm_GLM ctx (np_roll y (taus ! i)) (V_design_matrix ctx) = Inr m
          \<and> sm_fit ctx m = Inr res)
     \<and> predict res (V_design_matrix_t ctx) = Inr p
     \<and> length p = length y_t \<and> y_t \<noteq> [] \<and> y \<noteq> [] \<and> length (params res) = 9
     \<and> pseudo_r2 (centered (np_roll y_t (taus ! i))) (map2 (-) (np_roll y_t (taus ! i)) p)
         = Inr v"

text \<open>
  The same for GLMFitNoLick.make, where the prediction is on the fitted matrix and \<open>v\<close> is
  the in-sample pseudo-R2.
\<close>

definition nolick_shift_succeeds ::
  "'m glm_ctx \<Rightarrow> real list \<Rightarrow> nat \<Rightarrow> glm_result \<Rightarrow> real list \<Rightarrow> np_float \<Rightarrow> bool" where
  "nolick_shift_succeeds ctx y i res p v \<longleftrightarrow>
     (\<exists>m. sm_GLM ctx (np_roll y (taus ! i)) (V_design_matrix ctx) = Inr m
          \<and> sm_fit ctx m = Inr res)
     \<and> predict res (V_design_matrix ctx) = Inr p
     \<and> length p = length y \<and> y \<noteq> [] \<and> length (params res) = 9
     \<and> pseudo_r2 (centered (np_roll y (taus ! i))) (resid_response res) = Inr v"

text \<open>
  At shift number \<open>i\<close> the fit succeeds and the in-sample pseudo-R2 \<open>v\<close> is stored, and then
  the prediction on the test matrix raises, or the held-out scoring does (the difference
  of the test counts and the prediction, or the division).
\<close>

definition glmfit_held_out_raises ::
  "'m glm_ctx \<Rightarrow> real list \<Rightarrow> real list \<Rightarrow> nat \<Rightarrow> np_float \<Rightarrow> bool" where
  "glmfit_held_out_raises ctx y y_t i v \<longleftrightarrow>
     (\<exists>m res. sm_GLM ctx (np_roll y (taus ! i)) (V_design_matrix ctx) = Inr m
          \<and> sm_fit ctx m = Inr res
          \<and> pseudo_r2 (centered (np_roll y (taus ! i))) (resid_response res) = Inr v
          \<and> ((\<exists>e. predict res (V_design_matrix_t ctx) = Inl e)
             \<or> (\<exists>p. predict res (V_design_matrix_t ctx) = Inr p
                  \<and> ((\<exists>e. np_sub (np_roll y_t (taus ! i)) p = Inl e)
                     \<or> (\<exists>d e. np_sub (np_roll y_t (taus ! i)) p = Inr d
                            \<and> pseudo_r2 (centered (np_roll y_t (taus ! i))) d = Inl e)))))"

text \<open>In GLMFitNoLick.make: the fit succeeds, \<open>v\<close> is stored, and the prediction raises.\<close>

definition nolick_prediction_raises :: "'m glm_ctx \<Rightarrow> real list \<Rightarrow> nat \<Rightarrow> np_float \<Rightarrow> bool" where
  "nolick_prediction_raises ctx y i v \<longleftrightarrow>
     (\<exists>m res. sm_GLM ctx (np_roll y (taus ! i)) (V_design_matrix ctx) = Inr m
          \<and> sm_fit ctx m = Inr res
          \<and> pseudo_r2 (centered (np_roll y (taus ! i))) (resid_response res) = Inr v
          \<and> (\<exists>e. predict res (V_design_matrix ctx) = Inl e))"

text \<open>
  The result arrays as allocated before the loop over the shifts (lines 512-515, with
  \<open>n\<close> the number of test bins; lines 751-753, with \<open>n\<close> the number of bins), and one shift
  processed alone on them.
\<close>

definition fresh_arrays :: "nat \<Rightarrow> glm_state" where
  "fresh_arrays n =
     \<lparr>arrays = (\<lambda>a. [])(0 := replicate (length taus) (Fin 0)),
      weights_t = replicate (length taus) (replicate 9 0),
      predict_ys = replicate (length taus) (replicate n 0)\<rparr>"

definition glmfit_alone :: "'m glm_ctx \<Rightarrow> real list \<Rightarrow> real list \<Rightarrow> nat \<Rightarrow> py_error + glm_state" where
  "glmfit_alone ctx y y_t i =
     glmfit_tau ctx y y_t 0 0 (i, taus ! i) (fresh_arrays (length y_t))"

definition nolick_alone :: "'m glm_ctx \<Rightarrow> real list \<Rightarrow> nat \<Rightarrow> py_error + glm_state" where
  "nolick_alone ctx y i = nolick_tau ctx y 0 (i, taus ! i) (fresh_arrays (length y))"

text \<open>
  The state of the three result arrays at index \<open>i\<close>, with the pseudo-R2 array at
  address \<open>a\<close>: the arrays have one entry per shift, and entry \<open>i\<close> holds the given values.
\<close>

definition slot_is :: "glm_state \<Rightarrow> nat \<Rightarrow> nat \<Rightarrow> np_float \<Rightarrow> real list \<Rightarrow> real list \<Rightarrow> bool" where
  "slot_is st a i r w p \<longleftrightarrow>
     length (arrays st a) = length taus \<and> length (weights_t st) = length taus
     \<and> length (predict_ys st) = length taus
     \<and> arrays st a ! i = r \<and> weights_t st ! i = w \<and> predict_ys st ! i = p"

subsection \<open>Stand-ins for statsmodels in the worked examples\<close>

text \<open>
  A fit result with nine parameters, residuals \<open>[1, 0]\<close> and the prediction \<open>[0, 2]\<close>;
  a library whose model objects are the pair of its arguments and whose fits all succeed
  with that result; one whose prediction raises; and one whose fit raises exactly when the
  first (shifted) spike count is 0.
\<close>

definition stub_result :: glm_result where
  "stub_result = \<lparr>params = replicate 9 1, resid_response = [1, 0],
                   predict = (\<lambda>X. Inr [0, 2])\<rparr>"

definition stub_ctx :: "(real list \<times> real list list) glm_ctx" where
  "stub_ctx = \<lparr>sm_GLM = (\<lambda>y X. Inr (y, X)), sm_fit = (\<lambda>m. Inr stub_result),
               V_design_matrix = [[0], [0]], V_design_matrix_t = [[0], [0]]\<rparr>"

definition stub_ctx_predict_raises :: "(real list \<times> real list list) glm_ctx" where
  "stub_ctx_predict_raises =
     stub_ctx\<lparr>sm_fit := (\<lambda>m. Inr (stub_result\<lparr>predict := (\<lambda>X. Inl ValueError)\<rparr>))\<rparr>"

definition stub_ctx_fit_raises :: "(real list \<times> real list list) glm_ctx" where
  "stub_ctx_fit_raises =
     stub_ctx\<lparr>sm_fit := (\<lambda>m. if hd (fst m) = 0 then Inl LinAlgError else Inr stub_result)\<rparr>"

text \<open>
  For the permutation test: a generator whose draw number \<open>k\<close> is \<open>k * k\<close> modulo the
  bound; a tuning fit that reports as modulation index the sum of the products of
  abscissa and curve value, or NaN when some curve value is not finite; and a rank test
  whose p-value is the share of null values on the side the alternative names (both
  sides: all of them).
\<close>

definition stub_randint :: "nat \<Rightarrow> nat \<Rightarrow> nat \<times> nat" where
  "stub_randint g n = (g * g mod n, Suc g)"

fun first_moment :: "real list \<Rightarrow> np_float list \<Rightarrow> np_float" where
  "first_moment (a # x) (Fin r # y) =
     (case first_moment x y of Fin s \<Rightarrow> Fin (a * r + s) | PosInf \<Rightarrow> NaN | NegInf \<Rightarrow> NaN
      | NaN \<Rightarrow> NaN)"
| "first_moment (a # x) (PosInf # y) = NaN"
| "first_moment (a # x) (NegInf # y) = NaN"
| "first_moment (a # x) (NaN # y) = NaN"
| "first_moment [] y = Fin 0"
| "first_moment (a # x) [] = Fin 0"

definition stub_phase_tuning :: "real list \<Rightarrow> np_float list \<Rightarrow> np_float \<times> np_float" where
  "stub_phase_tuning x y = (Fin 0, first_moment x y)"

fun float_less :: "np_float \<Rightarrow> np_float \<Rightarrow> bool" where
  "float_less (Fin a) (Fin b) = (a < b)"
| "float_less NaN v = False"
| "float_less v NaN = False"
| "float_less v NegInf = False"
| "float_less PosInf v = False"
| "float_less NegInf v = True"
| "float_less v PosInf = True"

definition stub_mannwhitneyu ::
  "np_float \<Rightarrow> np_float list \<Rightarrow> alternative \<Rightarrow> np_float \<times> np_float" where
  "stub_mannwhitneyu m d alt =
     (Fin (real (length (filter (\<lambda>v. float_less v m) d))),
      (if d = [] then NaN
       else (case alt of
               Greater \<Rightarrow>
                 Fin (real (length (filter (\<lambda>v. \<not> float_less v m) d)) / real (length d))
             | Less \<Rightarrow>
                 Fin (real (length (filter (\<lambda>v. \<not> float_less m v) d)) / real (length d))
             | TwoSided \<Rightarrow> Fin 1)))"

section \<open>Verified properties\<close>

subsection \<open>Holdout partition\<close>

lemma slice_step5_nth:
  "slice_step5 xs = map (\<lambda>k. xs ! (5 * k)) [0..<(length xs + 4) div 5]"
proof (induction xs rule: slice_step5.induct)
  case 1
  show ?case by simp
next
  case (2 x xs)
  let ?m = "(length (drop 4 xs) + 4) div 5"
  have len: "(length (x # xs) + 4) div 5 = Suc ?m"
    by (cases "4 \<le> length xs") auto
  have idx: "[0..<Suc ?m] = 0 # map Suc [0..<?m]"
    by (simp add: upt_conv_Cons map_Suc_upt del: upt_Suc)
  have tl: "map (\<lambda>k. drop 4 xs ! (5 * k)) [0..<?m] = map (\<lambda>k. (x # xs) ! (5 * Suc k)) [0..<?m]"
  proof (cases "4 \<le> length xs")
    case True
    then show ?thesis by (simp add: nth_drop)
  next
    case False
    then show ?thesis by simp
  qed
  have "slice_step5 (x # xs) = x # map (\<lambda>k. drop 4 xs ! (5 * k)) [0..<?m]"
    using "2.IH" by simp
  also have "\<dots> = map (\<lambda>k. (x # xs) ! (5 * k)) (0 # map Suc [0..<?m])"
    using tl by (simp add: comp_def)
  finally show ?case using len idx by simp
qed

lemma set_slice_step5: "set (slice_step5 xs) \<subseteq> set xs"
proof (induction xs rule: slice_step5.induct)
  case 1
  show ?case by simp
next
  case (2 x xs)
  have "set (drop 4 xs) \<subseteq> set xs" by (rule set_drop_subset)
  with "2.IH" show ?case by auto
qed

lemma strict_sorted_slice_step5:
  "sorted_wrt (<) xs \<Longrightarrow> sorted_wrt (<) (slice_step5 xs)"
proof (induction xs rule: slice_step5.induct)
  case 1
  show ?case by simp
next
  case (2 x xs)
  have sub: "set (slice_step5 (drop 4 xs)) \<subseteq> set xs"
    using set_slice_step5 [of "drop 4 xs"] set_drop_subset [of 4 xs] by blast
  have "sorted_wrt (<) (drop 4 xs)"
    using "2.prems" by (simp add: sorted_wrt_drop)
  then have "sorted_wrt (<) (slice_step5 (drop 4 xs))" by (rule "2.IH")
  moreover have "\<forall>y\<in>set (slice_step5 (drop 4 xs)). x < y"
    using "2.prems" sub by auto
  ultimately show ?case by simp
qed

lemma np_unique_id: "sorted_wrt (<) xs \<Longrightarrow> np_unique xs = xs"
  by (simp add: np_unique_def strict_sorted_iff sorted_sort_id)

lemma set_np_unique: "set (np_unique xs) = set xs"
  by (simp add: np_unique_def)

lemma setdiff1d_sorted:
  "sorted_wrt (<) a \<Longrightarrow> setdiff1d a b = filter (\<lambda>x. x \<notin> set b) a"
  by (simp add: setdiff1d_def np_unique_id set_np_unique)

lemma nth_first_index: "v \<in> set ys \<Longrightarrow> ys ! first_index ys v = v"
  unfolding first_index_def by (induction ys) auto

lemma first_index_nth: "distinct ys \<Longrightarrow> i < length ys \<Longrightarrow> first_index ys (ys ! i) = i"
  unfolding first_index_def
proof (induction ys arbitrary: i)
  case Nil
  then show ?case by simp
next
  case (Cons y ys)
  then show ?case by (cases i) auto
qed

lemma rows_at_intersect1d:
  assumes "sorted_wrt (<) a" and "set a \<subseteq> set b"
  shows "rows_at b (map (\<lambda>p. p + 1) (intersect1d_ind2 a b)) = a"
proof -
  have "filter (\<lambda>v. v \<in> set b) a = a" using assms(2) by (auto simp: filter_id_conv)
  then have "intersect1d_ind2 a b = map (first_index b) a"
    using assms(1) by (simp add: intersect1d_ind2_def np_unique_id)
  moreover have "map (\<lambda>v. b ! first_index b v) a = a"
  proof (rule map_idI)
    fix v assume "v \<in> set a"
    then show "b ! first_index b v = v" using assms(2) by (auto intro: nth_first_index)
  qed
  ultimately show ?thesis by (simp add: rows_at_def comp_def)
qed


text \<open>
  C5. For a list of trial identifiers in trial order (sorted, no identifier twice), the test
  trials are exactly the elements at positions 0, 5, 10, ... of the list, the train trials
  are exactly the other elements of the list (in order), the two sets are disjoint and their
  union is the whole list. GLMFit.make keeps the partition as one-based positions: reading
  the list at those positions gives the same test and train trials, and the test positions
  are 1, 6, 11, ... . Both partitions are functions of the input list alone.
\<close>

theorem holdout_partition:
  assumes "sorted xs" and "distinct xs"
  shows "fst (holdout_cae xs) = map (\<lambda>k. xs ! (5 * k)) [0..<(length xs + 4) div 5]
       \<and> snd (holdout_cae xs) = filter (\<lambda>t. t \<notin> set (fst (holdout_cae xs))) xs
       \<and> set (fst (holdout_cae xs)) \<inter> set (snd (holdout_cae xs)) = {}
       \<and> set (fst (holdout_cae xs)) \<union> set (snd (holdout_cae xs)) = set xs
       \<and> rows_at xs (fst (holdout_glmfit xs)) = fst (holdout_cae xs)
       \<and> rows_at xs (snd (holdout_glmfit xs)) = snd (holdout_cae xs)
       \<and> fst (holdout_glmfit xs) = map (\<lambda>k. 5 * k + 1) [0..<(length xs + 4) div 5]"
proof -
  have ss: "sorted_wrt (<) xs" using assms by (simp add: strict_sorted_iff)
  have test: "fst (holdout_cae xs) = slice_step5 xs" by (simp add: holdout_cae_def Let_def)
  have train: "snd (holdout_cae xs) = filter (\<lambda>t. t \<notin> set (slice_step5 xs)) xs"
    using ss by (simp add: holdout_cae_def Let_def setdiff1d_sorted)
  have c1: "fst (holdout_cae xs) = map (\<lambda>k. xs ! (5 * k)) [0..<(length xs + 4) div 5]"
    using test slice_step5_nth by simp
  have c2: "snd (holdout_cae xs) = filter (\<lambda>t. t \<notin> set (fst (holdout_cae xs))) xs"
    using test train by simp
  have c3: "set (fst (holdout_cae xs)) \<inter> set (snd (holdout_cae xs)) = {}"
    using test train by auto
  have c4: "set (fst (holdout_cae xs)) \<union> set (snd (holdout_cae xs)) = set xs"
    using test train set_slice_step5 [of xs] by auto
  have s1: "sorted_wrt (<) (slice_step5 xs)" using ss by (rule strict_sorted_slice_step5)
  have "rows_at xs (map (\<lambda>p. p + 1) (intersect1d_ind2 (slice_step5 xs) xs)) = slice_step5 xs"
    using s1 set_slice_step5 by (rule rows_at_intersect1d)
  then have c5: "rows_at xs (fst (holdout_glmfit xs)) = fst (holdout_cae xs)"
    using test by (simp add: holdout_glmfit_def Let_def)
  have s2: "sorted_wrt (<) (filter (\<lambda>t. t \<notin> set (slice_step5 xs)) xs)"
    using ss by (rule sorted_wrt_filter)
  have "rows_at xs (map (\<lambda>p. p + 1) (intersect1d_ind2 (filter (\<lambda>t. t \<notin> set (slice_step5 xs)) xs) xs))
        = filter (\<lambda>t. t \<notin> set (slice_step5 xs)) xs"
    using s2 by (rule rows_at_intersect1d) auto
  then have c6: "rows_at xs (snd (holdout_glmfit xs)) = snd (holdout_cae xs)"
    using train ss by (simp add: holdout_glmfit_def Let_def setdiff1d_sorted)
  have "filter (\<lambda>v. v \<in> set xs) (slice_step5 xs) = slice_step5 xs"
    using set_slice_step5 [of xs] by (auto simp: filter_id_conv)
  then have "intersect1d_ind2 (slice_step5 xs) xs = map (first_index xs) (slice_step5 xs)"
    using s1 by (simp add: intersect1d_ind2_def np_unique_id)
  also have "\<dots> = map (\<lambda>k. first_index xs (xs ! (5 * k))) [0..<(length xs + 4) div 5]"
    by (subst slice_step5_nth) (simp add: comp_def)
  also have "\<dots> = map (\<lambda>k. 5 * k) [0..<(length xs + 4) div 5]"
    using assms(2) by (intro map_cong refl first_index_nth) auto
  finally have c7: "fst (holdout_glmfit xs) = map (\<lambda>k. 5 * k + 1) [0..<(length xs + 4) div 5]"
    by (simp add: holdout_glmfit_def Let_def comp_def)
  from c1 c2 c3 c4 c5 c6 c7 show ?thesis by blast
qed

theorem holdout_partition_witness:
  "sorted [1, 2, 3, 5, 6, 7, 8, 9, 10, 11, 12, 14 :: int]
   \<and> distinct [1, 2, 3, 5, 6, 7, 8, 9, 10, 11, 12, 14 :: int]
   \<and> fst (holdout_cae [1, 2, 3, 5, 6, 7, 8, 9, 10, 11, 12, 14]) = [1, 7, 12]
   \<and> snd (holdout_cae [1, 2, 3, 5, 6, 7, 8, 9, 10, 11, 12, 14]) = [2, 3, 5, 6, 8, 9, 10, 11, 14]
   \<and> fst (holdout_glmfit [1, 2, 3, 5, 6, 7, 8, 9, 10, 11, 12, 14]) = [1, 6, 11]"
proof -
  let ?L = "[1, 2, 3, 5, 6, 7, 8, 9, 10, 11, 12, 14 :: int]"
  have h1: "sorted ?L" by simp
  have h2: "distinct ?L" by simp
  note p = holdout_partition [OF h1 h2]
  have t: "fst (holdout_cae ?L) = [1, 7, 12]"
    using p by (simp add: upt_rec [of _ "numeral _"])
  have "snd (holdout_cae ?L) = filter (\<lambda>t. t \<notin> set (fst (holdout_cae ?L))) ?L"
    using p by blast
  then have tr: "snd (holdout_cae ?L) = [2, 3, 5, 6, 8, 9, 10, 11, 14]"
    unfolding t by simp
  have g: "fst (holdout_glmfit ?L) = [1, 6, 11]"
    using p by (simp add: upt_rec [of _ "numeral _"])
  from h1 h2 t tr g show ?thesis by blast
qed

subsection \<open>Absent bad-video annotations\<close>

text \<open>
  C6. When the bad-video row of a session has all four annotation fields absent, each is
  replaced by the sentinel array holding 0, no error is raised, and, provided every trial
  identifier is at least 1, the trials selected for processing are all the trials, the same
  as with an empty exclusion list.
\<close>

theorem absent_annotations_exclude_nothing:
  assumes "rows = r # rest"
    and "bad_trial_side r = None" and "bad_trial_bot r = None"
    and "miss_trial_side r = None" and "miss_trial_bot r = None"
    and "\<forall>t\<in>set trials. 1 \<le> t"
  shows "glmfit_bad_trials rows = Inr [0, 0, 0, 0]
       \<and> glmfit_selected_trials rows trials = Inr (minus_trials trials [])
       \<and> glmfit_selected_trials rows trials = Inr trials
       \<and> jaw_selected_trials rows trials = Inr (minus_trials trials [])
       \<and> jaw_selected_trials rows trials = Inr trials"
proof -
  have bad: "glmfit_bad_trials rows = Inr [0, 0, 0, 0]"
    using assms(1-5) by (simp add: glmfit_bad_trials_def first_or_sentinel_def)
  have keep: "minus_trials trials [0, 0, 0, 0] = trials" "minus_trials trials [0] = trials"
    using assms(6) by (auto simp: minus_trials_def filter_id_conv)
  have none: "minus_trials trials [] = trials" by (simp add: minus_trials_def)
  have g: "glmfit_selected_trials rows trials = Inr trials"
    using bad keep by (simp add: glmfit_selected_trials_def)
  have j: "jaw_selected_trials rows trials = Inr trials"
    using assms(1,4) keep by (simp add: jaw_selected_trials_def first_or_sentinel_def)
  have g0: "glmfit_selected_trials rows trials = Inr (minus_trials trials [])"
    using g none by simp
  have j0: "jaw_selected_trials rows trials = Inr (minus_trials trials [])"
    using j none by simp
  from bad g0 g j0 j show ?thesis by blast
qed

theorem absent_annotations_exclude_nothing_witness:
  "glmfit_bad_trials [\<lparr>bad_trial_side = None, bad_trial_bot = None,
                       miss_trial_side = None, miss_trial_bot = None\<rparr>] = Inr [0, 0, 0, 0]
   \<and> glmfit_selected_trials [\<lparr>bad_trial_side = None, bad_trial_bot = None,
                       miss_trial_side = None, miss_trial_bot = None\<rparr>] [1, 2, 3] = Inr [1, 2, 3]
   \<and> jaw_selected_trials [\<lparr>bad_trial_side = None, bad_trial_bot = None,
                       miss_trial_side = None, miss_trial_bot = None\<rparr>] [1, 2, 3] = Inr [1, 2, 3]"
proof -
  let ?r = "\<lparr>bad_trial_side = None, bad_trial_bot = None,
             miss_trial_side = None, miss_trial_bot = None\<rparr>"
  have h: "\<forall>t\<in>set [1, 2, 3 :: int]. 1 \<le> t" by simp
  have r: "[?r] = ?r # []" by simp
  have f: "bad_trial_side ?r = None" "bad_trial_bot ?r = None"
    "miss_trial_side ?r = None" "miss_trial_bot ?r = None" by simp_all
  from absent_annotations_exclude_nothing [OF r f h]
  show ?thesis by blast
qed


subsection \<open>String-keyed trial reordering\<close>

lemma str_nat_not_Nil: "str_nat n \<noteq> []"
  by (subst str_nat.simps) simp

lemma digit_char_less_iff: "a < 10 \<Longrightarrow> b < 10 \<Longrightarrow> digit_char a < digit_char b \<longleftrightarrow> a < b"
  by (simp add: digit_char_def less_char_def)

lemma digit_char_inj: "a < 10 \<Longrightarrow> b < 10 \<Longrightarrow> digit_char a = digit_char b \<Longrightarrow> a = b"
  using digit_char_less_iff [of a b] digit_char_less_iff [of b a] by (metis less_irrefl nat_neq_iff)

lemma str_nat_inj: "str_nat m = str_nat n \<Longrightarrow> m = n"
proof (induction m arbitrary: n rule: str_nat.induct)
  case (1 m)
  show ?case
  proof (cases "m < 10")
    case m: True
    show ?thesis
    proof (cases "n < 10")
      case True
      with m "1.prems" show ?thesis
        by (simp add: str_nat.simps [of m] str_nat.simps [of n] digit_char_inj)
    next
      case False
      with m "1.prems" str_nat_not_Nil [of "n div 10"] show ?thesis
        by (simp add: str_nat.simps [of m] str_nat.simps [of n] Cons_eq_append_conv)
    qed
  next
    case m: False
    show ?thesis
    proof (cases "n < 10")
      case True
      with m "1.prems" str_nat_not_Nil [of "m div 10"] show ?thesis
        by (simp add: str_nat.simps [of m] str_nat.simps [of n] append_eq_Cons_conv)
    next
      case False
      with m "1.prems" have eq: "str_nat (m div 10) = str_nat (n div 10)"
        and d: "digit_char (m mod 10) = digit_char (n mod 10)"
        by (simp_all add: str_nat.simps [of m] str_nat.simps [of n])
      from eq m have "m div 10 = n div 10" by (rule "1.IH" [rotated]) 
      moreover from d have "m mod 10 = n mod 10" by (rule digit_char_inj [rotated 2]) simp_all
      ultimately show ?thesis by (metis div_mult_mod_eq)
    qed
  qed
qed

lemma str_nat_digit_less:
  "i < 10 \<Longrightarrow> j < 10 \<Longrightarrow> str_nat j < str_nat i \<longleftrightarrow> j < i"
  by (simp add: str_nat.simps [of i] str_nat.simps [of j] digit_char_less_iff)

lemma sorted_position_count:
  fixes f :: "'a \<Rightarrow> 'b::linorder"
  assumes "sorted (map f ys)" and "distinct (map f ys)" and "p < length ys"
  shows "card {q. q < length ys \<and> f (ys ! q) < f (ys ! p)} = p"
proof -
  have strict: "sorted_wrt (<) (map f ys)"
    using assms(1,2) by (simp add: strict_sorted_iff)
  have "{q. q < length ys \<and> f (ys ! q) < f (ys ! p)} = {..<p}"
  proof (rule set_eqI)
    fix q
    show "q \<in> {q. q < length ys \<and> f (ys ! q) < f (ys ! p)} \<longleftrightarrow> q \<in> {..<p}"
    proof
      assume "q \<in> {q. q < length ys \<and> f (ys ! q) < f (ys ! p)}"
      then have q: "q < length ys" and lt: "f (ys ! q) < f (ys ! p)" by simp_all
      have "\<not> p \<le> q"
      proof
        assume "p \<le> q"
        then have "map f ys ! p \<le> map f ys ! q"
          using assms(1) q by (simp add: sorted_nth_mono del: nth_map)
        then show False using lt q assms(3) by simp
      qed
      then show "q \<in> {..<p}" by simp
    next
      assume "q \<in> {..<p}"
      then have qp: "q < p" by simp
      then have "map f ys ! q < map f ys ! p"
        using strict assms(3) by (simp add: sorted_wrt_nth_less del: nth_map)
      then show "q \<in> {q. q < length ys \<and> f (ys ! q) < f (ys ! p)}"
        using qp assms(3) by simp
    qed
  qed
  then show ?thesis by simp
qed

lemma length_trial_idx_nat: "length (trial_idx_nat n) = n"
  by (simp add: trial_idx_nat_def Let_def)

lemma trial_idx_nat_rank:
  assumes "i < n"
  shows "trial_idx_nat n ! i = card {j. j < n \<and> str_nat j < str_nat i}"
proof -
  define t0 where "t0 = map str_nat [0..<n]"
  define t1 where "t1 = sort_key (\<lambda>k. t0 ! k) [0..<n]"
  define t2 where "t2 = sort_key (\<lambda>k. t1 ! k) [0..<n]"
  have idx: "trial_idx_nat n = t2"
    by (simp add: trial_idx_nat_def Let_def t0_def t1_def t2_def)
  have len1: "length t1 = n" and set1: "set t1 = {0..<n}" and dist1: "distinct t1"
    by (simp_all add: t1_def)
  have "sorted (map (\<lambda>k. t0 ! k) t1)" by (simp add: t1_def)
  moreover have "map (\<lambda>k. t0 ! k) t1 = map str_nat t1"
    using set1 by (intro map_cong refl) (simp add: t0_def)
  ultimately have sorted1: "sorted (map str_nat t1)" by simp
  have distk: "distinct (map str_nat t1)"
    using dist1 by (simp add: distinct_map inj_on_def str_nat_inj)
  have len2: "length t2 = n" and set2: "set t2 = {0..<n}"
    by (simp_all add: t2_def)
  have "mset (map (\<lambda>k. t1 ! k) t2) = mset (map (\<lambda>k. t1 ! k) [0..<n])"
    by (simp add: t2_def)
  also have "map (\<lambda>k. t1 ! k) [0..<n] = t1"
    using len1 map_nth [of t1] by simp
  also have "mset t1 = mset [0..<n]" by (simp add: t1_def)
  finally have m: "mset (map (\<lambda>k. t1 ! k) t2) = mset [0..<n]" .
  have "sorted (map (\<lambda>k. t1 ! k) t2)" by (simp add: t2_def)
  with m have "sort [0..<n] = map (\<lambda>k. t1 ! k) t2" by (rule properties_for_sort)
  then have inv: "map (\<lambda>k. t1 ! k) t2 = [0..<n]" by (simp add: sort_upt)
  define p where "p = t2 ! i"
  have p: "p < n" using set2 len2 assms nth_mem [of i t2] by (auto simp: p_def)
  have "map (\<lambda>k. t1 ! k) t2 ! i = [0..<n] ! i" using inv by simp
  then have tp: "t1 ! p = i" using assms len2 by (simp add: p_def)
  have cnt: "card {q. q < length t1 \<and> str_nat (t1 ! q) < str_nat (t1 ! p)} = p"
    using sorted1 distk p len1 by (intro sorted_position_count) simp_all
  have img: "{j. j < n \<and> str_nat j < str_nat i}
             = (\<lambda>q. t1 ! q) ` {q. q < length t1 \<and> str_nat (t1 ! q) < str_nat (t1 ! p)}"
  proof (rule set_eqI)
    fix j
    show "j \<in> {j. j < n \<and> str_nat j < str_nat i} \<longleftrightarrow>
          j \<in> (\<lambda>q. t1 ! q) ` {q. q < length t1 \<and> str_nat (t1 ! q) < str_nat (t1 ! p)}"
    proof
      assume "j \<in> {j. j < n \<and> str_nat j < str_nat i}"
      then have j: "j < n" and lt: "str_nat j < str_nat i" by simp_all
      from j set1 have "j \<in> set t1" by simp
      then obtain q where "q < length t1" and "t1 ! q = j" by (auto simp: in_set_conv_nth)
      with lt tp show "j \<in> (\<lambda>q. t1 ! q) ` {q. q < length t1 \<and> str_nat (t1 ! q) < str_nat (t1 ! p)}"
        by auto
    next
      assume "j \<in> (\<lambda>q. t1 ! q) ` {q. q < length t1 \<and> str_nat (t1 ! q) < str_nat (t1 ! p)}"
      then obtain q where q: "q < length t1" and lt: "str_nat (t1 ! q) < str_nat (t1 ! p)"
        and jq: "j = t1 ! q" by auto
      from q set1 have "t1 ! q < n" using nth_mem [of q t1] by auto
      with lt tp jq show "j \<in> {j. j < n \<and> str_nat j < str_nat i}" by simp
    qed
  qed
  have "inj_on (\<lambda>q. t1 ! q) {q. q < length t1 \<and> str_nat (t1 ! q) < str_nat (t1 ! p)}"
    using dist1 by (auto simp: inj_on_def nth_eq_iff_index_eq)
  then have "card {j. j < n \<and> str_nat j < str_nat i} = p"
    using img cnt by (simp add: card_image)
  then show ?thesis by (simp add: idx p_def)
qed

lemma trial_idx_nat_small: 
  assumes "n \<le> 10" shows "trial_idx_nat n = [0..<n]"
proof (rule nth_equalityI)
  show "length (trial_idx_nat n) = length [0..<n]" by (simp add: length_trial_idx_nat)
next
  fix i assume "i < length (trial_idx_nat n)"
  then have i: "i < n" by (simp add: length_trial_idx_nat)
  have "{j. j < n \<and> str_nat j < str_nat i} = {..<i}"
    using i assms by (auto simp: str_nat_digit_less)
  then show "trial_idx_nat n ! i = [0..<n] ! i"
    using i by (simp add: trial_idx_nat_rank)
qed

lemma trial_idx_nat_large:
  assumes "10 < n" shows "3 \<le> trial_idx_nat n ! 2"
proof -
  have s: "str_nat 0 < str_nat 2" "str_nat 1 < str_nat 2" "str_nat 10 < str_nat 2"
    by (simp_all add: str_nat.simps digit_char_def less_char_def)
  have "{0, 1, 10} \<subseteq> {j. j < n \<and> str_nat j < str_nat 2}"
    using assms s by auto
  then have "card {0, 1, 10::nat} \<le> card {j. j < n \<and> str_nat j < str_nat 2}"
    by (intro card_mono) simp_all
  moreover have "trial_idx_nat n ! 2 = card {j. j < n \<and> str_nat j < str_nat 2}"
    using assms by (intro trial_idx_nat_rank) simp
  ultimately show ?thesis by simp
qed

lemma set_trial_idx_nat: "set (trial_idx_nat n) = {0..<n}"
  by (simp add: trial_idx_nat_def Let_def)

text \<open>
  C9. The index list built by the two string-keyed sorts holds, at each position \<open>i\<close>, the
  rank of \<open>i\<close> among the decimal strings of \<open>0, ..., n - 1\<close> in lexicographic order. It is
  the identity exactly when there are at most 10 trials; with more than 10 trials some
  position of the reordered array holds the row of a different trial index.
\<close>

theorem trial_idx_nat_lexicographic_rank:
  "(\<forall>i<n. trial_idx_nat n ! i = card {j. j < n \<and> str_nat j < str_nat i})
   \<and> (trial_idx_nat n = [0..<n] \<longleftrightarrow> n \<le> 10)
   \<and> (10 < n \<longrightarrow> length rows = n \<longrightarrow>
        (\<exists>i. i < n \<and> trial_idx_nat n ! i \<noteq> i \<and> trial_idx_nat n ! i < n
           \<and> reorder_rows rows (trial_idx_nat n) ! i = rows ! (trial_idx_nat n ! i)))"
proof (intro conjI allI impI)
  fix i assume "i < n"
  then show "trial_idx_nat n ! i = card {j. j < n \<and> str_nat j < str_nat i}"
    by (rule trial_idx_nat_rank)
next
  show "trial_idx_nat n = [0..<n] \<longleftrightarrow> n \<le> 10"
  proof
    assume eq: "trial_idx_nat n = [0..<n]"
    show "n \<le> 10"
    proof (rule ccontr)
      assume "\<not> n \<le> 10"
      then have n: "10 < n" by simp
      then have "3 \<le> trial_idx_nat n ! 2" by (rule trial_idx_nat_large)
      moreover have "[0..<n] ! 2 = 2" using n by simp
      ultimately show False using eq by simp
    qed
  next
    assume "n \<le> 10"
    then show "trial_idx_nat n = [0..<n]" by (rule trial_idx_nat_small)
  qed
next
  assume n: "10 < n" and len: "length rows = n"
  have a: "trial_idx_nat n ! 2 \<noteq> 2" using trial_idx_nat_large [OF n] by simp
  have "trial_idx_nat n ! 2 \<in> set (trial_idx_nat n)"
    using n by (intro nth_mem) (simp add: length_trial_idx_nat)
  then have b: "trial_idx_nat n ! 2 < n" by (simp add: set_trial_idx_nat)
  have c: "reorder_rows rows (trial_idx_nat n) ! 2 = rows ! (trial_idx_nat n ! 2)"
    using n by (simp add: reorder_rows_def length_trial_idx_nat)
  from n a b c show "\<exists>i. i < n \<and> trial_idx_nat n ! i \<noteq> i \<and> trial_idx_nat n ! i < n
           \<and> reorder_rows rows (trial_idx_nat n) ! i = rows ! (trial_idx_nat n ! i)"
    by (intro exI [of _ 2]) simp
qed

theorem trial_idx_nat_lexicographic_rank_witness:
  "(2::nat) < 12
   \<and> trial_idx_nat 12 ! 2 = card {j. j < 12 \<and> str_nat j < str_nat 2}
   \<and> trial_idx_nat 12 \<noteq> [0..<12]
   \<and> trial_idx_nat 3 = [0..<3]"
proof -
  have h: "(2::nat) < 12" by simp
  note r = trial_idx_nat_lexicographic_rank [of 12 "[]"]
  from r have "\<forall>i<12. trial_idx_nat 12 ! i = card {j. j < 12 \<and> str_nat j < str_nat i}"
    by (rule conjunct1)
  with h have a: "trial_idx_nat 12 ! 2 = card {j. j < 12 \<and> str_nat j < str_nat 2}"
    by blast
  from r have "trial_idx_nat 12 = [0..<12] \<longleftrightarrow> (12::nat) \<le> 10" by blast
  then have b: "trial_idx_nat 12 \<noteq> [0..<12]" by simp
  have "trial_idx_nat 3 = [0..<3] \<longleftrightarrow> (3::nat) \<le> 10"
    using trial_idx_nat_lexicographic_rank [of 3 "[]"] by blast
  then have c: "trial_idx_nat 3 = [0..<3]" by simp
  from h a b c show ?thesis by blast
qed

subsection \<open>Spike-aligned phase reads\<close>

lemma np_take_in_bounds:
  assumes "\<forall>i\<in>set is. 0 \<le> i \<and> i < int (length row)"
  shows "np_take row is = Inr (map (\<lambda>j. row ! nat j) is)"
  using assms by (induction "is") (auto simp: np_getitem_def Let_def)

lemma phase_loop_in_bounds:
  assumes "k + length ss \<le> length phase"
    and "\<forall>m<length ss. \<forall>i\<in>set (ss ! m). 0 \<le> i \<and> i < int (length (phase ! (k + m)))"
  shows "phase_loop phase ss k
         = Inr (map (\<lambda>m. map (\<lambda>j. phase ! (k + m) ! nat j) (ss ! m)) [0..<length ss])"
  using assms
proof (induction ss arbitrary: k)
  case Nil
  then show ?case by simp
next
  case (Cons s ss)
  have k: "k < length phase" using Cons.prems(1) by simp
  have "\<forall>i\<in>set s. 0 \<le> i \<and> i < int (length (phase ! k))"
    using Cons.prems(2) [rule_format, of 0] by simp
  then have hd: "np_take (phase ! k) s = Inr (map (\<lambda>j. phase ! k ! nat j) s)"
    by (rule np_take_in_bounds)
  have "\<forall>m<length ss. \<forall>i\<in>set (ss ! m). 0 \<le> i \<and> i < int (length (phase ! (Suc k + m)))"
    using Cons.prems(2) [rule_format, of "Suc _"] by simp
  moreover have "Suc k + length ss \<le> length phase" using Cons.prems(1) by simp
  ultimately have tl: "phase_loop phase ss (Suc k)
      = Inr (map (\<lambda>m. map (\<lambda>j. phase ! (Suc k + m) ! nat j) (ss ! m)) [0..<length ss])"
    by (rule Cons.IH [rotated])
  have "[0..<length (s # ss)] = 0 # map Suc [0..<length ss]"
    by (simp add: upt_conv_Cons map_Suc_upt del: upt_Suc)
  then show ?case using k hd tl by (simp add: comp_def)
qed

lemma astype_int_nonneg: "0 \<le> x \<Longrightarrow> 0 \<le> astype_int x"
  by (simp add: astype_int_def)

lemma spike_indices_bounds:
  assumes "\<forall>t\<in>set d. 0 \<le> t" and "0 \<le> fs"
  shows "\<forall>i\<in>set (spike_indices n fs d). 0 \<le> i \<and> i < int n"
  using assms by (auto simp: spike_indices_def intro!: astype_int_nonneg)


lemma good_trial_ind_of_bounds:
  "i \<in> set (good_trial_ind_of ls sn) \<Longrightarrow> i < length ls \<and> int (ls ! i) = sn"
  by (simp add: good_trial_ind_of_def)

text \<open>
  C10. Spike times become integer sample indices and only indices below the frame count
  (1470) are kept. If all spike times and the sampling rate are non-negative, the spike
  list has one entry per trial, the phase matrix has the shape of the good traces, and the
  median trace length is at least the frame count, then every read of a phase row is in
  bounds: no IndexError is raised, and (when there is at least one good trial) the result is
  the phase matrix read at exactly the kept indices, spikes at or past the frame count
  having been dropped by the filter.
\<close>

theorem jaw_phase_access_in_bounds:
  assumes shape: "\<forall>m. length (cip m fs) = length m
                     \<and> (\<forall>k<length m. length (cip m fs ! k) = length (m ! k))"
    and sn: "sample_number_of (map length session_traces) = Inr sample_number"
    and frame: "int jaw_num_frame \<le> sample_number"
    and aligned: "length all_spikes = length session_traces"
    and nonneg: "\<forall>d\<in>set all_spikes. \<forall>t\<in>set d. 0 \<le> t"
    and fs: "0 \<le> fs"
  shows "let ind = good_trial_ind_of (map length session_traces) sample_number;
             phase = map (map (\<lambda>p. p + pi)) (cip (map (\<lambda>i. session_traces ! i) ind) fs);
             good_spikes = map (\<lambda>i. spike_indices jaw_num_frame fs (all_spikes ! i)) ind
         in jaw_all_phase cip session_traces all_spikes fs \<noteq> Inl IndexError
          \<and> (\<forall>k<length good_spikes. \<forall>j\<in>set (good_spikes ! k).
                0 \<le> j \<and> j < int jaw_num_frame \<and> j < int (length (phase ! k)))
          \<and> (ind \<noteq> [] \<longrightarrow>
               jaw_all_phase cip session_traces all_spikes fs
               = Inr (concat (phases_at phase good_spikes)))"
proof -
  define ind where "ind = good_trial_ind_of (map length session_traces) sample_number"
  let ?good_traces = "map (\<lambda>i. session_traces ! i) ind"
  define phase where "phase = map (map (\<lambda>p. p + pi)) (cip ?good_traces fs)"
  define good_spikes where
    "good_spikes = map (\<lambda>i. spike_indices jaw_num_frame fs (all_spikes ! i)) ind"
  have ind_b: "i < length session_traces \<and> int (length (session_traces ! i)) = sample_number"
    if "i \<in> set ind" for i
    using good_trial_ind_of_bounds [of i "map length session_traces" sample_number] that
    by (auto simp: ind_def)
  have len_phase: "length phase = length ind"
    using shape by (simp add: phase_def)
  have row_len: "int (length (phase ! k)) = sample_number" if "k < length ind" for k
  proof -
    have "length (cip ?good_traces fs ! k) = length (?good_traces ! k)"
      using shape that by simp
    moreover have "k < length (cip ?good_traces fs)"
      using shape that by simp
    moreover have "ind ! k \<in> set ind" using that by simp
    ultimately show ?thesis
      using that ind_b [of "ind ! k"] by (simp add: phase_def)
  qed
  have acc: "\<forall>k<length good_spikes. \<forall>j\<in>set (good_spikes ! k).
                0 \<le> j \<and> j < int jaw_num_frame \<and> j < int (length (phase ! k))"
  proof (intro allI impI ballI)
    fix k j assume k: "k < length good_spikes" and j: "j \<in> set (good_spikes ! k)"
    from k have k': "k < length ind" by (simp add: good_spikes_def)
    then have "ind ! k \<in> set ind" by simp
    then have "ind ! k < length all_spikes" using ind_b aligned by simp
    then have "all_spikes ! (ind ! k) \<in> set all_spikes" by simp
    then have "\<forall>t\<in>set (all_spikes ! (ind ! k)). 0 \<le> t" using nonneg by blast
    then have "\<forall>i\<in>set (spike_indices jaw_num_frame fs (all_spikes ! (ind ! k))).
                 0 \<le> i \<and> i < int jaw_num_frame"
      using fs by (rule spike_indices_bounds)
    with j k' have "0 \<le> j \<and> j < int jaw_num_frame" by (simp add: good_spikes_def)
    with row_len [OF k'] frame
    show "0 \<le> j \<and> j < int jaw_num_frame \<and> j < int (length (phase ! k))" by simp
  qed
  have loop: "phase_loop phase good_spikes 0 = Inr (phases_at phase good_spikes)"
  proof -
    have "0 + length good_spikes \<le> length phase"
      using len_phase by (simp add: good_spikes_def)
    moreover have "\<forall>m<length good_spikes. \<forall>i\<in>set (good_spikes ! m).
                     0 \<le> i \<and> i < int (length (phase ! (0 + m)))"
      using acc by simp
    ultimately have "phase_loop phase good_spikes 0
        = Inr (map (\<lambda>m. map (\<lambda>j. phase ! (0 + m) ! nat j) (good_spikes ! m))
                 [0..<length good_spikes])"
      by (rule phase_loop_in_bounds)
    then show ?thesis by (simp add: phases_at_def)
  qed
  have no_spike_err: "\<not> (\<exists>i\<in>set ind. length all_spikes \<le> i)"
    using ind_b aligned by (auto simp: not_le)
  have unfold: "jaw_all_phase cip session_traces all_spikes fs
      = (if ind = [] then Inl ValueError
         else np_hstack (phases_at phase good_spikes))"
    using sn no_spike_err loop
    by (simp add: jaw_all_phase_def Let_def ind_def [symmetric]
        phase_def [symmetric] good_spikes_def [symmetric])
  have ne: "jaw_all_phase cip session_traces all_spikes fs \<noteq> Inl IndexError"
    unfolding unfold by (simp add: np_hstack_def)
  have res: "jaw_all_phase cip session_traces all_spikes fs
             = Inr (concat (phases_at phase good_spikes))" if "ind \<noteq> []"
    unfolding unfold using that
    by (simp add: np_hstack_def phases_at_def good_spikes_def)
  from ne acc res show ?thesis
    unfolding Let_def ind_def [symmetric] phase_def [symmetric] good_spikes_def [symmetric]
    by blast
qed

theorem jaw_phase_access_in_bounds_witness:
  "jaw_all_phase (\<lambda>m fs. m) [replicate 1470 0] [[1/2, 2000]] 1 = Inr [pi]"
proof -
  let ?tr = "[replicate 1470 (0::real)]"
  let ?sp = "[[1/2, 2000 :: real]]"
  have shape: "\<forall>m::real list list. length ((\<lambda>m fs. m) m (1::real)) = length m
        \<and> (\<forall>k<length m. length ((\<lambda>m fs. m) m (1::real) ! k) = length (m ! k))"
    by simp
  have sn: "sample_number_of (map length ?tr) = Inr 1470"
    by (simp add: sample_number_of_def np_median_def astype_int_def)
  have frame: "int jaw_num_frame \<le> 1470" by (simp add: jaw_num_frame_def)
  have aligned: "length ?sp = length ?tr" by simp
  have nonneg: "\<forall>d\<in>set ?sp. \<forall>t\<in>set d. 0 \<le> t" by simp
  have fs: "(0::real) \<le> 1" by simp
  have ind: "good_trial_ind_of [1470] 1470 = [0]"
    by (simp add: good_trial_ind_of_def)
  have sp: "spike_indices jaw_num_frame 1 [1/2, 2000] = [0]"
    by (simp add: spike_indices_def jaw_num_frame_def astype_int_def)
  from jaw_phase_access_in_bounds [OF shape sn frame aligned nonneg fs]
  have "jaw_all_phase (\<lambda>m fs. m) ?tr ?sp 1
        = Inr (concat (phases_at (map (map (\<lambda>p. p + pi)) ?tr) [[0]]))"
    by (simp add: ind sp Let_def)
  then show ?thesis by (simp add: phases_at_def)
qed

subsection \<open>Bad motion-decomposition traces\<close>

lemma returning_consumers_skip:
  assumes "svd_len mod 1471 \<noteq> 0"
  shows "whisker_tuning_svd svd_len rest = \<lparr>printed = [bad_video_msg], inserted = [], raised = None\<rparr>"
    and "glmfit_svd svd_len rest = \<lparr>printed = [bad_video_msg], inserted = [], raised = None\<rparr>"
    and "glmfit_nolick_svd svd_len rest = \<lparr>printed = [bad_video_msg], inserted = [], raised = None\<rparr>"
  using assms
  by (simp_all add: whisker_tuning_svd_def glmfit_svd_def glmfit_nolick_svd_def svd_num_frame_def)

lemma movement_timing_never_skips:
  assumes "svd_len mod 1471 \<noteq> 0"
  shows "movement_timing_svd svd_len rest
         = \<lparr>printed = [bad_video_msg], inserted = [], raised = Some UnboundLocalError\<rparr>"
  using assms by (simp add: movement_timing_svd_def)

text \<open>
  C2. A motion-decomposition trace of 1472 samples is not a multiple of 1471.
  WhiskerTuning, GLMFit and GLMFitNoLick print the message and return with nothing inserted.
  MovementTiming prints the message, does not return, and leaves \<^verbatim>\<open>make\<close> with
  UnboundLocalError at the read of \<^verbatim>\<open>num_trial_w\<close>; nothing is inserted there either.
\<close>

theorem movement_timing_bad_video_raises:
  "movement_timing_svd 1472 rest
     = \<lparr>printed = [bad_video_msg], inserted = [], raised = Some UnboundLocalError\<rparr>
   \<and> whisker_tuning_svd 1472 rest
     = \<lparr>printed = [bad_video_msg], inserted = [], raised = None\<rparr>
   \<and> glmfit_svd 1472 rest
     = \<lparr>printed = [bad_video_msg], inserted = [], raised = None\<rparr>
   \<and> glmfit_nolick_svd 1472 rest
     = \<lparr>printed = [bad_video_msg], inserted = [], raised = None\<rparr>"
  by (simp add: movement_timing_svd_def whisker_tuning_svd_def glmfit_svd_def
      glmfit_nolick_svd_def svd_num_frame_def)

subsection \<open>Shifted GLM fits\<close>

lemma for_loop_append:
  "for_loop body (xs @ ys) st
   = (case for_loop body xs st of Inl e \<Rightarrow> Inl e | Inr s \<Rightarrow> for_loop body ys s)"
  by (induction xs arbitrary: st) (auto split: sum.splits)

lemma for_loop_total:
  assumes "\<And>it s. it \<in> set its \<Longrightarrow> \<exists>s'. body it s = Inr s'"
  shows "\<exists>st'. for_loop body its st = Inr st'"
  using assms
proof (induction its arbitrary: st)
  case Nil
  show ?case by simp
next
  case (Cons it its)
  obtain s' where s': "body it st = Inr s'" using Cons.prems [of it st] by auto
  have "\<exists>st'. for_loop body its s' = Inr st'"
    by (rule Cons.IH) (use Cons.prems in auto)
  with s' show ?case by simp
qed

lemma for_loop_invariant:
  assumes "for_loop body its st = Inr st'" and "P st"
    and "\<And>it s s'. it \<in> set its \<Longrightarrow> body it s = Inr s' \<Longrightarrow> P s \<Longrightarrow> P s'"
  shows "P st'"
  using assms
proof (induction its arbitrary: st)
  case Nil
  then show ?case by simp
next
  case (Cons it its)
  from Cons.prems(1) obtain s1 where s1: "body it st = Inr s1"
    and rest: "for_loop body its s1 = Inr st'"
    by (auto split: sum.splits)
  have "P s1" using Cons.prems(3) [of it st s1] s1 Cons.prems(2) by simp
  with rest show ?case
    by (rule Cons.IH) (use Cons.prems(3) in auto)
qed

lemma length_np_roll: "length (np_roll y tau) = length y"
  by (simp add: np_roll_def Let_def)

lemma length_taus: "length taus = 11"
  by (simp add: taus_def)

lemma enumerate_list_nth:
  "i < length xs \<Longrightarrow> enumerate_list xs ! i = (i, xs ! i)"
  by (simp add: enumerate_list_def)

lemma enumerate_list_take_fst:
  "it \<in> set (take i (enumerate_list xs)) \<Longrightarrow> fst it < i"
proof -
  assume "it \<in> set (take i (enumerate_list xs))"
  then have "it \<in> set (zip (take i [0..<length xs]) (take i xs))"
    by (simp add: enumerate_list_def take_zip)
  then have "(fst it, snd it) \<in> set (zip (take i [0..<length xs]) (take i xs))" by simp
  then have "fst it \<in> set (take i [0..<length xs])" by (rule set_zip_leftD)
  then have "fst it \<in> set [0..<length xs]" and "length (take i [0..<length xs]) \<le> i"
    by (auto dest: in_set_takeD)
  then show ?thesis
    by (metis \<open>fst it \<in> set (take i [0..<length xs])\<close> in_set_conv_nth length_take
        min.strict_boundedE nth_take nth_upt add_0 length_upt diff_zero)
qed

lemma enumerate_list_drop_fst:
  "it \<in> set (drop (Suc i) (enumerate_list xs)) \<Longrightarrow> i < fst it"
proof -
  assume "it \<in> set (drop (Suc i) (enumerate_list xs))"
  then have "it \<in> set (zip (drop (Suc i) [0..<length xs]) (drop (Suc i) xs))"
    by (simp add: enumerate_list_def drop_zip)
  then have "(fst it, snd it) \<in> set (zip (drop (Suc i) [0..<length xs]) (drop (Suc i) xs))"
    by simp
  then have "fst it \<in> set (drop (Suc i) [0..<length xs])" by (rule set_zip_leftD)
  then show ?thesis by simp
qed

lemma enumerate_list_snd:
  "it \<in> set (enumerate_list xs) \<Longrightarrow> snd it \<in> set xs"
proof -
  assume "it \<in> set (enumerate_list xs)"
  then have "(fst it, snd it) \<in> set (zip [0..<length xs] xs)"
    by (simp add: enumerate_list_def)
  then show ?thesis by (rule set_zip_rightD)
qed

lemma glmfit_tau_frame:
  assumes "glmfit_tau ctx y y_t a a it st = Inr st'" and "fst it \<noteq> i"
    and "slot_is st a i r w p"
  shows "slot_is st' a i r w p"
  using assms
  by (auto simp: glmfit_tau_def glmfit_try_def slot_is_def write_at_def set_row_def Let_def
      split: sum.splits if_splits)

lemma glmfit_tau_fit_raises:
  assumes "sm_GLM ctx (np_roll y tau) (V_design_matrix ctx) = Inr m" and "sm_fit ctx m = Inl e"
  shows "glmfit_tau ctx y y_t a b (i, tau) st = Inr st"
  using assms by (simp add: glmfit_tau_def glmfit_try_def Let_def)

lemma pseudo_r2_total: "dev \<noteq> [] \<Longrightarrow> \<exists>v. pseudo_r2 dev res = Inr v"
  by (simp add: pseudo_r2_def)

lemma centered_np_roll_not_Nil: "y \<noteq> [] \<Longrightarrow> centered (np_roll y tau) \<noteq> []"
  by (simp add: centered_def np_roll_def Let_def)

lemma glmfit_tau_success:
  assumes m: "sm_GLM ctx (np_roll y tau) (V_design_matrix ctx) = Inr m"
    and res: "sm_fit ctx m = Inr res"
    and p: "predict res (V_design_matrix_t ctx) = Inr p"
    and len: "length p = length y_t" "y_t \<noteq> []" "y \<noteq> []" "length (params res) = 9"
    and v: "pseudo_r2 (centered (np_roll y_t tau)) (map2 (-) (np_roll y_t tau) p) = Inr v"
    and i: "i < length taus"
    and slot: "slot_is st a i (Fin 0) (replicate 9 0) (replicate (length y_t) 0)"
  shows "\<exists>st'. glmfit_tau ctx y y_t a a (i, tau) st = Inr st'
           \<and> slot_is st' a i v (params res) p"
proof -
  obtain r2_in where r2_in: "pseudo_r2 (centered (np_roll y tau)) (resid_response res) = Inr r2_in"
    using pseudo_r2_total [OF centered_np_roll_not_Nil [OF len(3)]] by blast
  have sub: "np_sub (np_roll y_t tau) p = Inr (map2 (-) (np_roll y_t tau) p)"
    using len by (simp add: np_sub_def length_np_roll)
  show ?thesis
    using m res p len i slot r2_in sub v
    by (simp add: glmfit_tau_def glmfit_try_def slot_is_def write_at_def set_row_def Let_def)
qed

lemma glmfit_tau_held_out_raises:
  assumes m: "sm_GLM ctx (np_roll y tau) (V_design_matrix ctx) = Inr m"
    and res: "sm_fit ctx m = Inr res"
    and v: "pseudo_r2 (centered (np_roll y tau)) (resid_response res) = Inr v"
    and bad: "(\<exists>e. predict res (V_design_matrix_t ctx) = Inl e)
             \<or> (\<exists>p. predict res (V_design_matrix_t ctx) = Inr p
                  \<and> ((\<exists>e. np_sub (np_roll y_t tau) p = Inl e)
                     \<or> (\<exists>d e. np_sub (np_roll y_t tau) p = Inr d
                            \<and> pseudo_r2 (centered (np_roll y_t tau)) d = Inl e)))"
    and i: "i < length taus"
    and slot: "slot_is st a i (Fin 0) w p0"
  shows "\<exists>st'. glmfit_tau ctx y y_t a a (i, tau) st = Inr st' \<and> slot_is st' a i v w p0"
  using assms
  by (auto simp: glmfit_tau_def glmfit_try_def slot_is_def write_at_def Let_def)

lemma glmfit_tau_slot_cong:
  assumes "slot_is st a i r w p" and "slot_is st' a i r w p"
    and "glmfit_tau ctx y y_t a a (i, tau) st = Inr s"
    and "glmfit_tau ctx y y_t a a (i, tau) st' = Inr s'"
    and "i < length taus"
  shows "slot_is s a i (arrays s' a ! i) (weights_t s' ! i) (predict_ys s' ! i)"
  using assms
  by (auto simp: glmfit_tau_def glmfit_try_def slot_is_def write_at_def set_row_def Let_def
      split: sum.splits if_splits)

lemma glmfit_loop_slot:
  assumes loop: "for_loop (glmfit_tau ctx y y_t a a) (enumerate_list taus) st0 = Inr st'"
    and i: "i < length taus"
    and slot0: "slot_is st0 a i r w p"
  shows "\<exists>sa sb. slot_is sa a i r w p
           \<and> glmfit_tau ctx y y_t a a (i, taus ! i) sa = Inr sb
           \<and> (\<forall>r' w' p'. slot_is sb a i r' w' p' \<longrightarrow> slot_is st' a i r' w' p')"
proof -
  let ?its = "enumerate_list taus"
  let ?body = "glmfit_tau ctx y y_t a a"
  have len: "i < length ?its" using i by (simp add: enumerate_list_def)
  have split: "?its = take i ?its @ (i, taus ! i) # drop (Suc i) ?its"
    using id_take_nth_drop [OF len] enumerate_list_nth [OF i] by simp
  have "for_loop ?body (take i ?its @ (i, taus ! i) # drop (Suc i) ?its) st0 = Inr st'"
    using loop split by simp
  then obtain sa sb where pre: "for_loop ?body (take i ?its) st0 = Inr sa"
    and mid: "?body (i, taus ! i) sa = Inr sb"
    and post: "for_loop ?body (drop (Suc i) ?its) sb = Inr st'"
    by (auto simp: for_loop_append split: sum.splits)
  have sa: "slot_is sa a i r w p"
  proof (rule for_loop_invariant [where P = "\<lambda>s. slot_is s a i r w p", OF pre slot0])
    fix it s s'
    assume a1: "it \<in> set (take i ?its)" and a2: "?body it s = Inr s'"
      and a3: "slot_is s a i r w p"
    from a1 have "fst it < i" by (rule enumerate_list_take_fst)
    then have "fst it \<noteq> i" by simp
    with a2 show "slot_is s' a i r w p" using a3 by (rule glmfit_tau_frame)
  qed
  have fin: "slot_is st' a i r' w' p'" if "slot_is sb a i r' w' p'" for r' w' p'
  proof (rule for_loop_invariant [where P = "\<lambda>s. slot_is s a i r' w' p'", OF post that])
    fix it s s'
    assume a1: "it \<in> set (drop (Suc i) ?its)" and a2: "?body it s = Inr s'"
      and a3: "slot_is s a i r' w' p'"
    from a1 have "i < fst it" by (rule enumerate_list_drop_fst)
    then have "fst it \<noteq> i" by simp
    with a2 show "slot_is s' a i r' w' p'" using a3 by (rule glmfit_tau_frame)
  qed
  show ?thesis
  proof (rule exI [of _ sa], rule exI [of _ sb], intro conjI allI impI)
    show "slot_is sa a i r w p" by (rule sa)
    show "?body (i, taus ! i) sa = Inr sb" by (rule mid)
  qed (rule fin)
qed

lemma fresh_arrays_slot:
  "i < length taus \<Longrightarrow> slot_is (fresh_arrays n) 0 i (Fin 0) (replicate 9 0) (replicate n 0)"
  by (simp add: slot_is_def fresh_arrays_def)

lemma glmfit_unit_slots:
  assumes built: "models_built ctx y"
  shows "\<exists>rec. glmfit_unit ctx (k, y, y_t) = Inr rec \<and> unit_key rec = k
          \<and> (\<forall>i<length taus.
               (\<exists>s. glmfit_alone ctx y y_t i = Inr s
                    \<and> r2 rec ! i = arrays s 0 ! i \<and> r2_t rec ! i = arrays s 0 ! i
                    \<and> weights rec ! i = weights_t s ! i
                    \<and> predict_y rec ! i = predict_ys s ! i)
             \<and> (fit_raises ctx y i \<longrightarrow>
                  r2 rec ! i = Fin 0 \<and> r2_t rec ! i = Fin 0
                  \<and> weights rec ! i = replicate 9 0
                  \<and> predict_y rec ! i = replicate (length y_t) 0)
             \<and> (\<forall>v. glmfit_held_out_raises ctx y y_t i v \<longrightarrow>
                  r2 rec ! i = v \<and> weights rec ! i = replicate 9 0
                  \<and> predict_y rec ! i = replicate (length y_t) 0)
             \<and> (\<forall>res p v. glmfit_shift_succeeds ctx y y_t i res p v \<longrightarrow>
                  r2_t rec ! i = v \<and> weights rec ! i = params res \<and> predict_y rec ! i = p))"
proof -
  let ?body = "glmfit_tau ctx y y_t 0 0"
  let ?st0 = "fresh_arrays (length y_t)"
  have "\<exists>st'. for_loop ?body (enumerate_list taus) ?st0 = Inr st'"
  proof (rule for_loop_total)
    fix it s assume "it \<in> set (enumerate_list taus)"
    then have "snd it \<in> set taus" by (rule enumerate_list_snd)
    then obtain m where "sm_GLM ctx (np_roll y (snd it)) (V_design_matrix ctx) = Inr m"
      using built by (auto simp: models_built_def)
    then show "\<exists>s'. ?body it s = Inr s'" by (simp add: glmfit_tau_def Let_def)
  qed
  then obtain st' where loop: "for_loop ?body (enumerate_list taus) ?st0 = Inr st'" by blast
  define rec where "rec = \<lparr>unit_key = k, r2 = arrays st' 0, r2_t = arrays st' 0,
                  weights = weights_t st', predict_y = predict_ys st'\<rparr>"
  have unit: "glmfit_unit ctx (k, y, y_t) = Inr rec"
    using loop by (simp add: glmfit_unit_def Let_def fresh_arrays_def rec_def)
  have slots: "(\<exists>s. glmfit_alone ctx y y_t i = Inr s
                    \<and> r2 rec ! i = arrays s 0 ! i \<and> r2_t rec ! i = arrays s 0 ! i
                    \<and> weights rec ! i = weights_t s ! i
                    \<and> predict_y rec ! i = predict_ys s ! i)
             \<and> (fit_raises ctx y i \<longrightarrow>
                  r2 rec ! i = Fin 0 \<and> r2_t rec ! i = Fin 0
                  \<and> weights rec ! i = replicate 9 0
                  \<and> predict_y rec ! i = replicate (length y_t) 0)
             \<and> (\<forall>v. glmfit_held_out_raises ctx y y_t i v \<longrightarrow>
                  r2 rec ! i = v \<and> weights rec ! i = replicate 9 0
                  \<and> predict_y rec ! i = replicate (length y_t) 0)
             \<and> (\<forall>res p v. glmfit_shift_succeeds ctx y y_t i res p v \<longrightarrow>
                  r2_t rec ! i = v \<and> weights rec ! i = params res \<and> predict_y rec ! i = p)"
    if i: "i < length taus" for i
  proof -
    have slot0: "slot_is ?st0 0 i (Fin 0) (replicate 9 0) (replicate (length y_t) 0)"
      using i by (rule fresh_arrays_slot)
    from glmfit_loop_slot [OF loop i slot0]
    obtain sa sb where sa: "slot_is sa 0 i (Fin 0) (replicate 9 0) (replicate (length y_t) 0)"
      and mid: "?body (i, taus ! i) sa = Inr sb"
      and fin: "\<And>r' w' p'. slot_is sb 0 i r' w' p' \<Longrightarrow> slot_is st' 0 i r' w' p'"
      by blast
    have "taus ! i \<in> set taus" using i by simp
    then obtain m where m: "sm_GLM ctx (np_roll y (taus ! i)) (V_design_matrix ctx) = Inr m"
      using built by (auto simp: models_built_def)
    then obtain s where s: "?body (i, taus ! i) ?st0 = Inr s"
      by (simp add: glmfit_tau_def Let_def)
    have "slot_is sb 0 i (arrays s 0 ! i) (weights_t s ! i) (predict_ys s ! i)"
      using sa slot0 mid s i by (rule glmfit_tau_slot_cong)
    then have "slot_is st' 0 i (arrays s 0 ! i) (weights_t s ! i) (predict_ys s ! i)"
      by (rule fin)
    then have own: "r2 rec ! i = arrays s 0 ! i" "r2_t rec ! i = arrays s 0 ! i"
      "weights rec ! i = weights_t s ! i" "predict_y rec ! i = predict_ys s ! i"
      by (simp_all add: slot_is_def rec_def)
    have alone: "glmfit_alone ctx y y_t i = Inr s"
      using s by (simp add: glmfit_alone_def)
    have D: "\<exists>s. glmfit_alone ctx y y_t i = Inr s
                    \<and> r2 rec ! i = arrays s 0 ! i \<and> r2_t rec ! i = arrays s 0 ! i
                    \<and> weights rec ! i = weights_t s ! i
                    \<and> predict_y rec ! i = predict_ys s ! i"
      using alone own by blast
    have B: "r2 rec ! i = Fin 0 \<and> r2_t rec ! i = Fin 0
                  \<and> weights rec ! i = replicate 9 0
                  \<and> predict_y rec ! i = replicate (length y_t) 0" if "fit_raises ctx y i"
    proof -
      from that obtain m' e
        where "sm_GLM ctx (np_roll y (taus ! i)) (V_design_matrix ctx) = Inr m'"
          and "sm_fit ctx m' = Inl e"
        by (auto simp: fit_raises_def)
      then have "?body (i, taus ! i) ?st0 = Inr ?st0" by (rule glmfit_tau_fit_raises)
      with s have "s = ?st0" by simp
      with slot0 own show ?thesis by (simp add: slot_is_def)
    qed
    have E: "r2 rec ! i = v \<and> weights rec ! i = replicate 9 0
                  \<and> predict_y rec ! i = replicate (length y_t) 0"
      if "glmfit_held_out_raises ctx y y_t i v" for v
    proof -
      from that obtain m' res
        where m': "sm_GLM ctx (np_roll y (taus ! i)) (V_design_matrix ctx) = Inr m'"
          and res: "sm_fit ctx m' = Inr res"
          and v: "pseudo_r2 (centered (np_roll y (taus ! i))) (resid_response res) = Inr v"
          and bad: "(\<exists>e. predict res (V_design_matrix_t ctx) = Inl e)
             \<or> (\<exists>p. predict res (V_design_matrix_t ctx) = Inr p
                  \<and> ((\<exists>e. np_sub (np_roll y_t (taus ! i)) p = Inl e)
                     \<or> (\<exists>d e. np_sub (np_roll y_t (taus ! i)) p = Inr d
                            \<and> pseudo_r2 (centered (np_roll y_t (taus ! i))) d = Inl e)))"
        unfolding glmfit_held_out_raises_def by blast
      from glmfit_tau_held_out_raises [OF m' res v bad i slot0]
      obtain s2 where "?body (i, taus ! i) ?st0 = Inr s2"
        and "slot_is s2 0 i v (replicate 9 0) (replicate (length y_t) 0)" by blast
      with s own show ?thesis by (simp add: slot_is_def)
    qed
    have S: "r2_t rec ! i = v \<and> weights rec ! i = params res \<and> predict_y rec ! i = p"
      if "glmfit_shift_succeeds ctx y y_t i res p v" for res p v
    proof -
      from that obtain m'
        where m': "sm_GLM ctx (np_roll y (taus ! i)) (V_design_matrix ctx) = Inr m'"
          and res: "sm_fit ctx m' = Inr res"
          and p: "predict res (V_design_matrix_t ctx) = Inr p"
          and len: "length p = length y_t" "y_t \<noteq> []" "y \<noteq> []" "length (params res) = 9"
          and v: "pseudo_r2 (centered (np_roll y_t (taus ! i)))
                    (map2 (-) (np_roll y_t (taus ! i)) p) = Inr v"
        by (auto simp: glmfit_shift_succeeds_def)
      from glmfit_tau_success [OF m' res p len v i slot0]
      obtain s2 where "?body (i, taus ! i) ?st0 = Inr s2"
        and "slot_is s2 0 i v (params res) p" by blast
      with s own show ?thesis by (simp add: slot_is_def)
    qed
    from D B E S show ?thesis by blast
  qed
  have key: "unit_key rec = k" by (simp add: rec_def)
  show ?thesis
  proof (intro exI [of _ rec] conjI allI impI)
    show "glmfit_unit ctx (k, y, y_t) = Inr rec" by (rule unit)
    show "unit_key rec = k" by (rule key)
  qed (use slots in blast)+
qed

lemma nolick_tau_frame:
  assumes "nolick_tau ctx y a it st = Inr st'" and "fst it \<noteq> i"
    and "slot_is st a i r w p"
  shows "slot_is st' a i r w p"
  using assms
  by (auto simp: nolick_tau_def nolick_try_def slot_is_def write_at_def set_row_def Let_def
      split: sum.splits if_splits)

lemma nolick_tau_fit_raises:
  assumes "sm_GLM ctx (np_roll y tau) (V_design_matrix ctx) = Inr m" and "sm_fit ctx m = Inl e"
  shows "nolick_tau ctx y a (i, tau) st = Inr st"
  using assms by (simp add: nolick_tau_def nolick_try_def Let_def)

lemma nolick_tau_success:
  assumes m: "sm_GLM ctx (np_roll y tau) (V_design_matrix ctx) = Inr m"
    and res: "sm_fit ctx m = Inr res"
    and p: "predict res (V_design_matrix ctx) = Inr p"
    and len: "length p = length y" "y \<noteq> []" "length (params res) = 9"
    and v: "pseudo_r2 (centered (np_roll y tau)) (resid_response res) = Inr v"
    and i: "i < length taus"
    and slot: "slot_is st a i (Fin 0) (replicate 9 0) (replicate (length y) 0)"
  shows "\<exists>st'. nolick_tau ctx y a (i, tau) st = Inr st' \<and> slot_is st' a i v (params res) p"
  using assms
  by (simp add: nolick_tau_def nolick_try_def slot_is_def write_at_def set_row_def Let_def)

lemma nolick_tau_prediction_raises:
  assumes m: "sm_GLM ctx (np_roll y tau) (V_design_matrix ctx) = Inr m"
    and res: "sm_fit ctx m = Inr res"
    and v: "pseudo_r2 (centered (np_roll y tau)) (resid_response res) = Inr v"
    and bad: "predict res (V_design_matrix ctx) = Inl e"
    and i: "i < length taus"
    and slot: "slot_is st a i (Fin 0) w p0"
  shows "\<exists>st'. nolick_tau ctx y a (i, tau) st = Inr st' \<and> slot_is st' a i v w p0"
  using assms
  by (auto simp: nolick_tau_def nolick_try_def slot_is_def write_at_def Let_def)

lemma nolick_tau_slot_cong:
  assumes "slot_is st a i r w p" and "slot_is st' a i r w p"
    and "nolick_tau ctx y a (i, tau) st = Inr s"
    and "nolick_tau ctx y a (i, tau) st' = Inr s'"
    and "i < length taus"
  shows "slot_is s a i (arrays s' a ! i) (weights_t s' ! i) (predict_ys s' ! i)"
  using assms
  by (auto simp: nolick_tau_def nolick_try_def slot_is_def write_at_def set_row_def Let_def
      split: sum.splits if_splits)

lemma nolick_loop_slot:
  assumes loop: "for_loop (nolick_tau ctx y a) (enumerate_list taus) st0 = Inr st'"
    and i: "i < length taus"
    and slot0: "slot_is st0 a i r w p"
  shows "\<exists>sa sb. slot_is sa a i r w p
           \<and> nolick_tau ctx y a (i, taus ! i) sa = Inr sb
           \<and> (\<forall>r' w' p'. slot_is sb a i r' w' p' \<longrightarrow> slot_is st' a i r' w' p')"
proof -
  let ?its = "enumerate_list taus"
  let ?body = "nolick_tau ctx y a"
  have len: "i < length ?its" using i by (simp add: enumerate_list_def)
  have split: "?its = take i ?its @ (i, taus ! i) # drop (Suc i) ?its"
    using id_take_nth_drop [OF len] enumerate_list_nth [OF i] by simp
  have "for_loop ?body (take i ?its @ (i, taus ! i) # drop (Suc i) ?its) st0 = Inr st'"
    using loop split by simp
  then obtain sa sb where pre: "for_loop ?body (take i ?its) st0 = Inr sa"
    and mid: "?body (i, taus ! i) sa = Inr sb"
    and post: "for_loop ?body (drop (Suc i) ?its) sb = Inr st'"
    by (auto simp: for_loop_append split: sum.splits)
  have sa: "slot_is sa a i r w p"
  proof (rule for_loop_invariant [where P = "\<lambda>s. slot_is s a i r w p", OF pre slot0])
    fix it s s'
    assume a1: "it \<in> set (take i ?its)" and a2: "?body it s = Inr s'"
      and a3: "slot_is s a i r w p"
    from a1 have "fst it < i" by (rule enumerate_list_take_fst)
    then have "fst it \<noteq> i" by simp
    with a2 show "slot_is s' a i r w p" using a3 by (rule nolick_tau_frame)
  qed
  have fin: "slot_is st' a i r' w' p'" if "slot_is sb a i r' w' p'" for r' w' p'
  proof (rule for_loop_invariant [where P = "\<lambda>s. slot_is s a i r' w' p'", OF post that])
    fix it s s'
    assume a1: "it \<in> set (drop (Suc i) ?its)" and a2: "?body it s = Inr s'"
      and a3: "slot_is s a i r' w' p'"
    from a1 have "i < fst it" by (rule enumerate_list_drop_fst)
    then have "fst it \<noteq> i" by simp
    with a2 show "slot_is s' a i r' w' p'" using a3 by (rule nolick_tau_frame)
  qed
  show ?thesis
  proof (rule exI [of _ sa], rule exI [of _ sb], intro conjI allI impI)
    show "slot_is sa a i r w p" by (rule sa)
    show "?body (i, taus ! i) sa = Inr sb" by (rule mid)
  qed (rule fin)
qed

lemma nolick_unit_slots:
  assumes built: "models_built ctx y"
  shows "\<exists>rec. nolick_unit ctx (k, y) = Inr rec \<and> nl_unit_key rec = k
          \<and> (\<forall>i<length taus.
               (\<exists>s. nolick_alone ctx y i = Inr s
                    \<and> r2_nolick rec ! i = arrays s 0 ! i
                    \<and> weights_nolick rec ! i = weights_t s ! i
                    \<and> predict_y_nolick rec ! i = predict_ys s ! i)
             \<and> (fit_raises ctx y i \<longrightarrow>
                  r2_nolick rec ! i = Fin 0 \<and> weights_nolick rec ! i = replicate 9 0
                  \<and> predict_y_nolick rec ! i = replicate (length y) 0)
             \<and> (\<forall>v. nolick_prediction_raises ctx y i v \<longrightarrow>
                  r2_nolick rec ! i = v \<and> weights_nolick rec ! i = replicate 9 0
                  \<and> predict_y_nolick rec ! i = replicate (length y) 0)
             \<and> (\<forall>res p v. nolick_shift_succeeds ctx y i res p v \<longrightarrow>
                  r2_nolick rec ! i = v \<and> weights_nolick rec ! i = params res
                  \<and> predict_y_nolick rec ! i = p))"
proof -
  let ?body = "nolick_tau ctx y 0"
  let ?st0 = "fresh_arrays (length y)"
  have "\<exists>st'. for_loop ?body (enumerate_list taus) ?st0 = Inr st'"
  proof (rule for_loop_total)
    fix it s assume "it \<in> set (enumerate_list taus)"
    then have "snd it \<in> set taus" by (rule enumerate_list_snd)
    then obtain m where "sm_GLM ctx (np_roll y (snd it)) (V_design_matrix ctx) = Inr m"
      using built by (auto simp: models_built_def)
    then show "\<exists>s'. ?body it s = Inr s'" by (simp add: nolick_tau_def Let_def)
  qed
  then obtain st' where loop: "for_loop ?body (enumerate_list taus) ?st0 = Inr st'" by blast
  define rec where "rec = \<lparr>nl_unit_key = k, r2_nolick = arrays st' 0,
                  weights_nolick = weights_t st', predict_y_nolick = predict_ys st'\<rparr>"
  have unit: "nolick_unit ctx (k, y) = Inr rec"
    using loop by (simp add: nolick_unit_def Let_def fresh_arrays_def rec_def)
  have slots: "(\<exists>s. nolick_alone ctx y i = Inr s
                    \<and> r2_nolick rec ! i = arrays s 0 ! i
                    \<and> weights_nolick rec ! i = weights_t s ! i
                    \<and> predict_y_nolick rec ! i = predict_ys s ! i)
             \<and> (fit_raises ctx y i \<longrightarrow>
                  r2_nolick rec ! i = Fin 0 \<and> weights_nolick rec ! i = replicate 9 0
                  \<and> predict_y_nolick rec ! i = replicate (length y) 0)
             \<and> (\<forall>v. nolick_prediction_raises ctx y i v \<longrightarrow>
                  r2_nolick rec ! i = v \<and> weights_nolick rec ! i = replicate 9 0
                  \<and> predict_y_nolick rec ! i = replicate (length y) 0)
             \<and> (\<forall>res p v. nolick_shift_succeeds ctx y i res p v \<longrightarrow>
                  r2_nolick rec ! i = v \<and> weights_nolick rec ! i = params res
                  \<and> predict_y_nolick rec ! i = p)"
    if i: "i < length taus" for i
  proof -
    have slot0: "slot_is ?st0 0 i (Fin 0) (replicate 9 0) (replicate (length y) 0)"
      using i by (rule fresh_arrays_slot)
    from nolick_loop_slot [OF loop i slot0]
    obtain sa sb where sa: "slot_is sa 0 i (Fin 0) (replicate 9 0) (replicate (length y) 0)"
      and mid: "?body (i, taus ! i) sa = Inr sb"
      and fin: "\<And>r' w' p'. slot_is sb 0 i r' w' p' \<Longrightarrow> slot_is st' 0 i r' w' p'"
      by blast
    have "taus ! i \<in> set taus" using i by simp
    then obtain m where m: "sm_GLM ctx (np_roll y (taus ! i)) (V_design_matrix ctx) = Inr m"
      using built by (auto simp: models_built_def)
    then obtain s where s: "?body (i, taus ! i) ?st0 = Inr s"
      by (simp add: nolick_tau_def Let_def)
    have "slot_is sb 0 i (arrays s 0 ! i) (weights_t s ! i) (predict_ys s ! i)"
      using sa slot0 mid s i by (rule nolick_tau_slot_cong)
    then have "slot_is st' 0 i (arrays s 0 ! i) (weights_t s ! i) (predict_ys s ! i)"
      by (rule fin)
    then have own: "r2_nolick rec ! i = arrays s 0 ! i"
      "weights_nolick rec ! i = weights_t s ! i" "predict_y_nolick rec ! i = predict_ys s ! i"
      by (simp_all add: slot_is_def rec_def)
    have alone: "nolick_alone ctx y i = Inr s"
      using s by (simp add: nolick_alone_def)
    have D: "\<exists>s. nolick_alone ctx y i = Inr s
                    \<and> r2_nolick rec ! i = arrays s 0 ! i
                    \<and> weights_nolick rec ! i = weights_t s ! i
                    \<and> predict_y_nolick rec ! i = predict_ys s ! i"
      using alone own by blast
    have B: "r2_nolick rec ! i = Fin 0 \<and> weights_nolick rec ! i = replicate 9 0
                  \<and> predict_y_nolick rec ! i = replicate (length y) 0"
      if "fit_raises ctx y i"
    proof -
      from that obtain m' e
        where "sm_GLM ctx (np_roll y (taus ! i)) (V_design_matrix ctx) = Inr m'"
          and "sm_fit ctx m' = Inl e"
        by (auto simp: fit_raises_def)
      then have "?body (i, taus ! i) ?st0 = Inr ?st0" by (rule nolick_tau_fit_raises)
      with s have "s = ?st0" by simp
      with slot0 own show ?thesis by (simp add: slot_is_def)
    qed
    have E: "r2_nolick rec ! i = v \<and> weights_nolick rec ! i = replicate 9 0
                  \<and> predict_y_nolick rec ! i = replicate (length y) 0"
      if "nolick_prediction_raises ctx y i v" for v
    proof -
      from that obtain m' res e
        where m': "sm_GLM ctx (np_roll y (taus ! i)) (V_design_matrix ctx) = Inr m'"
          and res: "sm_fit ctx m' = Inr res"
          and v: "pseudo_r2 (centered (np_roll y (taus ! i))) (resid_response res) = Inr v"
          and bad: "predict res (V_design_matrix ctx) = Inl e"
        unfolding nolick_prediction_raises_def by blast
      from nolick_tau_prediction_raises [OF m' res v bad i slot0]
      obtain s2 where "?body (i, taus ! i) ?st0 = Inr s2"
        and "slot_is s2 0 i v (replicate 9 0) (replicate (length y) 0)" by blast
      with s own show ?thesis by (simp add: slot_is_def)
    qed
    have S: "r2_nolick rec ! i = v \<and> weights_nolick rec ! i = params res
                  \<and> predict_y_nolick rec ! i = p"
      if "nolick_shift_succeeds ctx y i res p v" for res p v
    proof -
      from that obtain m'
        where m': "sm_GLM ctx (np_roll y (taus ! i)) (V_design_matrix ctx) = Inr m'"
          and res: "sm_fit ctx m' = Inr res"
          and p: "predict res (V_design_matrix ctx) = Inr p"
          and len: "length p = length y" "y \<noteq> []" "length (params res) = 9"
          and v: "pseudo_r2 (centered (np_roll y (taus ! i))) (resid_response res) = Inr v"
        by (auto simp: nolick_shift_succeeds_def)
      from nolick_tau_success [OF m' res p len v i slot0]
      obtain s2 where "?body (i, taus ! i) ?st0 = Inr s2"
        and "slot_is s2 0 i v (params res) p" by blast
      with s own show ?thesis by (simp add: slot_is_def)
    qed
    from D B E S show ?thesis by blast
  qed
  have key: "nl_unit_key rec = k" by (simp add: rec_def)
  show ?thesis
  proof (intro exI [of _ rec] conjI allI impI)
    show "nolick_unit ctx (k, y) = Inr rec" by (rule unit)
    show "nl_unit_key rec = k" by (rule key)
  qed (use slots in blast)+
qed

lemma glmfit_units_all:
  assumes "\<forall>u\<in>set us. \<exists>rec. glmfit_unit ctx u = Inr rec \<and> P u rec"
  shows "\<exists>recs. glmfit_units ctx us = Inr recs \<and> length recs = length us
           \<and> (\<forall>n<length us. P (us ! n) (recs ! n))"
  using assms
proof (induction us)
  case Nil
  show ?case by simp
next
  case (Cons u us)
  from Cons.prems obtain rec where rec: "glmfit_unit ctx u = Inr rec" "P u rec" by auto
  from Cons.prems have "\<forall>u\<in>set us. \<exists>rec. glmfit_unit ctx u = Inr rec \<and> P u rec" by simp
  then obtain recs where recs: "glmfit_units ctx us = Inr recs" "length recs = length us"
    "\<forall>n<length us. P (us ! n) (recs ! n)"
    using Cons.IH by blast
  have "\<forall>n<length (u # us). P ((u # us) ! n) ((rec # recs) ! n)"
    using rec(2) recs(3) by (auto simp: nth_Cons split: nat.splits)
  with rec(1) recs(1,2) show ?case by simp
qed

lemma nolick_units_all:
  assumes "\<forall>u\<in>set us. \<exists>rec. nolick_unit ctx u = Inr rec \<and> P u rec"
  shows "\<exists>recs. nolick_units ctx us = Inr recs \<and> length recs = length us
           \<and> (\<forall>n<length us. P (us ! n) (recs ! n))"
  using assms
proof (induction us)
  case Nil
  show ?case by simp
next
  case (Cons u us)
  from Cons.prems obtain rec where rec: "nolick_unit ctx u = Inr rec" "P u rec" by auto
  from Cons.prems have "\<forall>u\<in>set us. \<exists>rec. nolick_unit ctx u = Inr rec \<and> P u rec" by simp
  then obtain recs where recs: "nolick_units ctx us = Inr recs" "length recs = length us"
    "\<forall>n<length us. P (us ! n) (recs ! n)"
    using Cons.IH by blast
  have "\<forall>n<length (u # us). P ((u # us) ! n) ((rec # recs) ! n)"
    using rec(2) recs(3) by (auto simp: nth_Cons split: nat.splits)
  with rec(1) recs(1,2) show ?case by simp
qed

lemma glmfit_r2_arrays_shared:
  "glmfit_unit ctx u = Inr rec \<Longrightarrow> r2 rec = r2_t rec"
  by (auto simp: glmfit_unit_def Let_def split: sum.splits)

text \<open>
  C1. With a library whose every fit succeeds, spike counts \<open>[0, 2]\<close> (train and test),
  residuals \<open>[1, 0]\<close> and prediction \<open>[0, 2]\<close>, the in-sample pseudo-R2 is 1/2 at every
  shift, the held-out one is 1 at even and -3 at odd shifts. The record's \<open>r2\<close> and \<open>r2_t\<close>
  are the same array, so both hold the held-out values and the in-sample value is lost.
\<close>

theorem glmfit_r2_overwritten_by_held_out:
  "glmfit_unit stub_ctx (0::nat, [0, 2], [0, 2])
     = Inr \<lparr>unit_key = 0,
            r2 = [Fin (- 3), Fin 1, Fin (- 3), Fin 1, Fin (- 3), Fin 1, Fin (- 3), Fin 1,
                  Fin (- 3), Fin 1, Fin (- 3)],
            r2_t = [Fin (- 3), Fin 1, Fin (- 3), Fin 1, Fin (- 3), Fin 1, Fin (- 3), Fin 1,
                    Fin (- 3), Fin 1, Fin (- 3)],
            weights = replicate 11 (replicate 9 1),
            predict_y = replicate 11 [0, 2]\<rparr>
   \<and> map (\<lambda>tau. pseudo_r2 (centered (np_roll [0, 2] tau)) (resid_response stub_result)) taus
     = replicate 11 (Inr (Fin (1 / 2)))"
  by code_simp

text \<open>
  Against C4 as first stated: when the fit succeeds and the prediction raises, the
  pseudo-R2 entry written before the exception stays (here 1/2 at every shift, not zero),
  while the weight and predicted-rate rows stay zero.
\<close>

theorem prediction_failure_keeps_r2_counterexample:
  "glmfit_unit stub_ctx_predict_raises (0::nat, [0, 2], [0, 2])
     = Inr \<lparr>unit_key = 0,
            r2 = replicate 11 (Fin (1 / 2)),
            r2_t = replicate 11 (Fin (1 / 2)),
            weights = replicate 11 (replicate 9 0),
            predict_y = replicate 11 [0, 0]\<rparr>"
  by code_simp

text \<open>
  C4 (as amended). Provided the model object can be built at every shift of every unit
  (that call is outside the \<^verbatim>\<open>try\<close>), no exception raised inside a \<^verbatim>\<open>try\<close> body leaves
  the loops: GLMFit.make and GLMFitNoLick.make produce one record per unit, and in each
  record the entries of a shift are exactly those that shift's own \<^verbatim>\<open>try\<close> body leaves on
  freshly allocated zero arrays, whatever happened at the other shifts. In particular:
  at a shift whose \<^verbatim>\<open>fit()\<close> raises, the pseudo-R2 entries, the weight row and the
  predicted-rate row are zero; at a shift whose fit succeeds and whose prediction (or, in
  GLMFit.make, held-out scoring) raises, the \<open>r2\<close> entry holds the in-sample pseudo-R2
  already stored and the weight row and predicted-rate row are zero; at a shift where
  every statement succeeds, the rows hold that shift's fitted values.
\<close>

theorem fit_failure_leaves_shift_zero:
  assumes "\<forall>u\<in>set us. models_built ctx (fst (snd u))"
    and "\<forall>v\<in>set vs. models_built ctx (snd v)"
  shows "(\<exists>recs. glmfit_units ctx us = Inr recs \<and> length recs = length us
           \<and> (\<forall>n<length us. unit_key (recs ! n) = fst (us ! n)
                \<and> (\<forall>i<length taus.
                     (\<exists>s. glmfit_alone ctx (fst (snd (us ! n))) (snd (snd (us ! n))) i = Inr s
                          \<and> r2 (recs ! n) ! i = arrays s 0 ! i
                          \<and> r2_t (recs ! n) ! i = arrays s 0 ! i
                          \<and> weights (recs ! n) ! i = weights_t s ! i
                          \<and> predict_y (recs ! n) ! i = predict_ys s ! i)
                   \<and> (fit_raises ctx (fst (snd (us ! n))) i \<longrightarrow>
                        r2 (recs ! n) ! i = Fin 0 \<and> r2_t (recs ! n) ! i = Fin 0
                        \<and> weights (recs ! n) ! i = replicate 9 0
                        \<and> predict_y (recs ! n) ! i = replicate (length (snd (snd (us ! n)))) 0)
                   \<and> (\<forall>v. glmfit_held_out_raises ctx (fst (snd (us ! n)))
                              (snd (snd (us ! n))) i v \<longrightarrow>
                        r2 (recs ! n) ! i = v
                        \<and> weights (recs ! n) ! i = replicate 9 0
                        \<and> predict_y (recs ! n) ! i = replicate (length (snd (snd (us ! n)))) 0)
                   \<and> (\<forall>res p v. glmfit_shift_succeeds ctx (fst (snd (us ! n)))
                                  (snd (snd (us ! n))) i res p v \<longrightarrow>
                        r2_t (recs ! n) ! i = v
                        \<and> weights (recs ! n) ! i = params res
                        \<and> predict_y (recs ! n) ! i = p))))
       \<and> (\<exists>recs. nolick_units ctx vs = Inr recs \<and> length recs = length vs
           \<and> (\<forall>n<length vs. nl_unit_key (recs ! n) = fst (vs ! n)
                \<and> (\<forall>i<length taus.
                     (\<exists>s. nolick_alone ctx (snd (vs ! n)) i = Inr s
                          \<and> r2_nolick (recs ! n) ! i = arrays s 0 ! i
                          \<and> weights_nolick (recs ! n) ! i = weights_t s ! i
                          \<and> predict_y_nolick (recs ! n) ! i = predict_ys s ! i)
                   \<and> (fit_raises ctx (snd (vs ! n)) i \<longrightarrow>
                        r2_nolick (recs ! n) ! i = Fin 0
                        \<and> weights_nolick (recs ! n) ! i = replicate 9 0
                        \<and> predict_y_nolick (recs ! n) ! i = replicate (length (snd (vs ! n))) 0)
                   \<and> (\<forall>v. nolick_prediction_raises ctx (snd (vs ! n)) i v \<longrightarrow>
                        r2_nolick (recs ! n) ! i = v
                        \<and> weights_nolick (recs ! n) ! i = replicate 9 0
                        \<and> predict_y_nolick (recs ! n) ! i = replicate (length (snd (vs ! n))) 0)
                   \<and> (\<forall>res p v. nolick_shift_succeeds ctx (snd (vs ! n)) i res p v \<longrightarrow>
                        r2_nolick (recs ! n) ! i = v
                        \<and> weights_nolick (recs ! n) ! i = params res
                        \<and> predict_y_nolick (recs ! n) ! i = p))))"
proof (rule conjI)
  let ?P = "\<lambda>u rec. unit_key rec = fst u
                \<and> (\<forall>i<length taus.
                     (\<exists>s. glmfit_alone ctx (fst (snd u)) (snd (snd u)) i = Inr s
                          \<and> r2 rec ! i = arrays s 0 ! i
                          \<and> r2_t rec ! i = arrays s 0 ! i
                          \<and> weights rec ! i = weights_t s ! i
                          \<and> predict_y rec ! i = predict_ys s ! i)
                   \<and> (fit_raises ctx (fst (snd u)) i \<longrightarrow>
                        r2 rec ! i = Fin 0 \<and> r2_t rec ! i = Fin 0
                        \<and> weights rec ! i = replicate 9 0
                        \<and> predict_y rec ! i = replicate (length (snd (snd u))) 0)
                   \<and> (\<forall>v. glmfit_held_out_raises ctx (fst (snd u)) (snd (snd u)) i v \<longrightarrow>
                        r2 rec ! i = v
                        \<and> weights rec ! i = replicate 9 0
                        \<and> predict_y rec ! i = replicate (length (snd (snd u))) 0)
                   \<and> (\<forall>res p v. glmfit_shift_succeeds ctx (fst (snd u)) (snd (snd u)) i res p v
                        \<longrightarrow> r2_t rec ! i = v
                        \<and> weights rec ! i = params res
                        \<and> predict_y rec ! i = p))"
  have "\<forall>u\<in>set us. \<exists>rec. glmfit_unit ctx u = Inr rec \<and> ?P u rec"
  proof
    fix u assume "u \<in> set us"
    then have "models_built ctx (fst (snd u))" using assms(1) by blast
    from glmfit_unit_slots [OF this, of "fst u" "snd (snd u)"]
    show "\<exists>rec. glmfit_unit ctx u = Inr rec \<and> ?P u rec" by simp
  qed
  then show "\<exists>recs. glmfit_units ctx us = Inr recs \<and> length recs = length us
           \<and> (\<forall>n<length us. ?P (us ! n) (recs ! n))"
    by (rule glmfit_units_all)
next
  let ?Q = "\<lambda>v rec. nl_unit_key rec = fst v
                \<and> (\<forall>i<length taus.
                     (\<exists>s. nolick_alone ctx (snd v) i = Inr s
                          \<and> r2_nolick rec ! i = arrays s 0 ! i
                          \<and> weights_nolick rec ! i = weights_t s ! i
                          \<and> predict_y_nolick rec ! i = predict_ys s ! i)
                   \<and> (fit_raises ctx (snd v) i \<longrightarrow>
                        r2_nolick rec ! i = Fin 0
                        \<and> weights_nolick rec ! i = replicate 9 0
                        \<and> predict_y_nolick rec ! i = replicate (length (snd v)) 0)
                   \<and> (\<forall>w. nolick_prediction_raises ctx (snd v) i w \<longrightarrow>
                        r2_nolick rec ! i = w
                        \<and> weights_nolick rec ! i = replicate 9 0
                        \<and> predict_y_nolick rec ! i = replicate (length (snd v)) 0)
                   \<and> (\<forall>res p w. nolick_shift_succeeds ctx (snd v) i res p w \<longrightarrow>
                        r2_nolick rec ! i = w
                        \<and> weights_nolick rec ! i = params res
                        \<and> predict_y_nolick rec ! i = p))"
  have "\<forall>v\<in>set vs. \<exists>rec. nolick_unit ctx v = Inr rec \<and> ?Q v rec"
  proof
    fix v assume "v \<in> set vs"
    then have "models_built ctx (snd v)" using assms(2) by blast
    from nolick_unit_slots [OF this, of "fst v"]
    show "\<exists>rec. nolick_unit ctx v = Inr rec \<and> ?Q v rec" by simp
  qed
  then show "\<exists>recs. nolick_units ctx vs = Inr recs \<and> length recs = length vs
           \<and> (\<forall>n<length vs. ?Q (vs ! n) (recs ! n))"
    by (rule nolick_units_all)
qed

theorem fit_failure_leaves_shift_zero_witness:
  "(\<exists>recs. glmfit_units stub_ctx_fit_raises [(0::nat, [0, 2], [0, 2])] = Inr recs
       \<and> length recs = 1
       \<and> r2 (recs ! 0) ! 5 = Fin 0 \<and> r2_t (recs ! 0) ! 5 = Fin 0
       \<and> weights (recs ! 0) ! 5 = replicate 9 0 \<and> predict_y (recs ! 0) ! 5 = [0, 0]
       \<and> r2_t (recs ! 0) ! 6 = Fin (- 3)
       \<and> weights (recs ! 0) ! 6 = replicate 9 1 \<and> predict_y (recs ! 0) ! 6 = [0, 2])
   \<and> (\<exists>recs. nolick_units stub_ctx_fit_raises [(0::nat, [0, 2])] = Inr recs
       \<and> length recs = 1
       \<and> r2_nolick (recs ! 0) ! 5 = Fin 0
       \<and> weights_nolick (recs ! 0) ! 5 = replicate 9 0
       \<and> predict_y_nolick (recs ! 0) ! 5 = [0, 0]
       \<and> r2_nolick (recs ! 0) ! 6 = Fin (1 / 2)
       \<and> weights_nolick (recs ! 0) ! 6 = replicate 9 1)
   \<and> (\<exists>recs. glmfit_units stub_ctx_predict_raises [(0::nat, [0, 2], [0, 2])] = Inr recs
       \<and> r2 (recs ! 0) ! 5 = Fin (1 / 2)
       \<and> weights (recs ! 0) ! 5 = replicate 9 0 \<and> predict_y (recs ! 0) ! 5 = [0, 0])
   \<and> (\<exists>recs. nolick_units stub_ctx_predict_raises [(0::nat, [0, 2])] = Inr recs
       \<and> r2_nolick (recs ! 0) ! 5 = Fin (1 / 2)
       \<and> weights_nolick (recs ! 0) ! 5 = replicate 9 0
       \<and> predict_y_nolick (recs ! 0) ! 5 = [0, 0])"
proof -
  let ?C = "stub_ctx_fit_raises"
  let ?D = "stub_ctx_predict_raises"
  let ?us = "[(0::nat, [0, 2 :: real], [0, 2 :: real])]"
  let ?vs = "[(0::nat, [0, 2 :: real])]"
  have b1: "\<forall>u\<in>set ?us. models_built ?C (fst (snd u))"
    by (simp add: models_built_def stub_ctx_fit_raises_def stub_ctx_def)
  have b2: "\<forall>v\<in>set ?vs. models_built ?C (snd v)"
    by (simp add: models_built_def stub_ctx_fit_raises_def stub_ctx_def)
  have d1: "\<forall>u\<in>set ?us. models_built ?D (fst (snd u))"
    by (simp add: models_built_def stub_ctx_predict_raises_def stub_ctx_def)
  have d2: "\<forall>v\<in>set ?vs. models_built ?D (snd v)"
    by (simp add: models_built_def stub_ctx_predict_raises_def stub_ctx_def)
  have t5: "taus ! 5 = 0" and t6: "taus ! 6 = 1" by code_simp+
  have r0: "np_roll [0, 2 :: real] 0 = [0, 2]" and r1: "np_roll [0, 2 :: real] 1 = [2, 0]"
    by code_simp+
  have in5: "pseudo_r2 (centered [0, 2]) [1, 0] = Inr (Fin (1 / 2))"
    and in6: "pseudo_r2 (centered [2, 0]) [1, 0] = Inr (Fin (1 / 2))"
    and out6: "pseudo_r2 (centered [2, 0]) (map2 (-) [2, 0] [0, 2]) = Inr (Fin (- 3))"
    by code_simp+
  have f5: "fit_raises ?C [0, 2] 5"
    by (simp add: fit_raises_def t5 r0 stub_ctx_fit_raises_def stub_ctx_def)
  have s6: "glmfit_shift_succeeds ?C [0, 2] [0, 2] 6 stub_result [0, 2] (Fin (- 3))"
    using out6
    by (simp add: glmfit_shift_succeeds_def t6 r1 stub_ctx_fit_raises_def stub_ctx_def
        stub_result_def)
  have n6: "nolick_shift_succeeds ?C [0, 2] 6 stub_result [0, 2] (Fin (1 / 2))"
    using in6
    by (simp add: nolick_shift_succeeds_def t6 r1 stub_ctx_fit_raises_def stub_ctx_def
        stub_result_def)
  have h5: "glmfit_held_out_raises ?D [0, 2] [0, 2] 5 (Fin (1 / 2))"
    using in5
    by (simp add: glmfit_held_out_raises_def t5 r0 stub_ctx_predict_raises_def stub_ctx_def
        stub_result_def)
  have p5: "nolick_prediction_raises ?D [0, 2] 5 (Fin (1 / 2))"
    using in5
    by (simp add: nolick_prediction_raises_def t5 r0 stub_ctx_predict_raises_def stub_ctx_def
        stub_result_def)
  have l5: "5 < length taus" and l6: "6 < length taus" by (simp_all add: length_taus)
  note main = fit_failure_leaves_shift_zero [OF b1 b2]
  note main' = fit_failure_leaves_shift_zero [OF d1 d2]
  from main obtain recs where g: "glmfit_units ?C ?us = Inr recs" "length recs = length ?us"
    and gs: "\<forall>n<length ?us. unit_key (recs ! n) = fst (?us ! n)
                \<and> (\<forall>i<length taus.
                     (\<exists>s. glmfit_alone ?C (fst (snd (?us ! n))) (snd (snd (?us ! n))) i = Inr s
                          \<and> r2 (recs ! n) ! i = arrays s 0 ! i
                          \<and> r2_t (recs ! n) ! i = arrays s 0 ! i
                          \<and> weights (recs ! n) ! i = weights_t s ! i
                          \<and> predict_y (recs ! n) ! i = predict_ys s ! i)
                   \<and> (fit_raises ?C (fst (snd (?us ! n))) i \<longrightarrow>
                        r2 (recs ! n) ! i = Fin 0 \<and> r2_t (recs ! n) ! i = Fin 0
                        \<and> weights (recs ! n) ! i = replicate 9 0
                        \<and> predict_y (recs ! n) ! i = replicate (length (snd (snd (?us ! n)))) 0)
                   \<and> (\<forall>v. glmfit_held_out_raises ?C (fst (snd (?us ! n)))
                              (snd (snd (?us ! n))) i v \<longrightarrow>
                        r2 (recs ! n) ! i = v
                        \<and> weights (recs ! n) ! i = replicate 9 0
                        \<and> predict_y (recs ! n) ! i = replicate (length (snd (snd (?us ! n)))) 0)
                   \<and> (\<forall>res p v. glmfit_shift_succeeds ?C (fst (snd (?us ! n)))
                                  (snd (snd (?us ! n))) i res p v \<longrightarrow>
                        r2_t (recs ! n) ! i = v
                        \<and> weights (recs ! n) ! i = params res
                        \<and> predict_y (recs ! n) ! i = p))"
    by blast
  from gs have g0: "\<forall>i<length taus.
                     (fit_raises ?C [0, 2] i \<longrightarrow>
                        r2 (recs ! 0) ! i = Fin 0 \<and> r2_t (recs ! 0) ! i = Fin 0
                        \<and> weights (recs ! 0) ! i = replicate 9 0
                        \<and> predict_y (recs ! 0) ! i = [0, 0])
                   \<and> (\<forall>v. glmfit_held_out_raises ?C [0, 2] [0, 2] i v \<longrightarrow>
                        r2 (recs ! 0) ! i = v
                        \<and> weights (recs ! 0) ! i = replicate 9 0
                        \<and> predict_y (recs ! 0) ! i = [0, 0])
                   \<and> (\<forall>res p v. glmfit_shift_succeeds ?C [0, 2] [0, 2] i res p v \<longrightarrow>
                        r2_t (recs ! 0) ! i = v
                        \<and> weights (recs ! 0) ! i = params res
                        \<and> predict_y (recs ! 0) ! i = p)"
    by simp
  from g0 l5 f5 have a5: "r2 (recs ! 0) ! 5 = Fin 0 \<and> r2_t (recs ! 0) ! 5 = Fin 0
      \<and> weights (recs ! 0) ! 5 = replicate 9 0 \<and> predict_y (recs ! 0) ! 5 = [0, 0]"
    by blast
  from g0 l6 s6 have a6: "r2_t (recs ! 0) ! 6 = Fin (- 3)
      \<and> weights (recs ! 0) ! 6 = params stub_result
      \<and> predict_y (recs ! 0) ! 6 = [0, 2]"
    by blast
  have A: "\<exists>recs. glmfit_units ?C ?us = Inr recs
       \<and> length recs = 1
       \<and> r2 (recs ! 0) ! 5 = Fin 0 \<and> r2_t (recs ! 0) ! 5 = Fin 0
       \<and> weights (recs ! 0) ! 5 = replicate 9 0 \<and> predict_y (recs ! 0) ! 5 = [0, 0]
       \<and> r2_t (recs ! 0) ! 6 = Fin (- 3)
       \<and> weights (recs ! 0) ! 6 = replicate 9 1 \<and> predict_y (recs ! 0) ! 6 = [0, 2]"
    using g a5 a6 by (intro exI [of _ recs]) (simp add: stub_result_def)
  from main obtain nrecs where h: "nolick_units ?C ?vs = Inr nrecs" "length nrecs = length ?vs"
    and hs: "\<forall>n<length ?vs. nl_unit_key (nrecs ! n) = fst (?vs ! n)
                \<and> (\<forall>i<length taus.
                     (\<exists>s. nolick_alone ?C (snd (?vs ! n)) i = Inr s
                          \<and> r2_nolick (nrecs ! n) ! i = arrays s 0 ! i
                          \<and> weights_nolick (nrecs ! n) ! i = weights_t s ! i
                          \<and> predict_y_nolick (nrecs ! n) ! i = predict_ys s ! i)
                   \<and> (fit_raises ?C (snd (?vs ! n)) i \<longrightarrow>
                        r2_nolick (nrecs ! n) ! i = Fin 0
                        \<and> weights_nolick (nrecs ! n) ! i = replicate 9 0
                        \<and> predict_y_nolick (nrecs ! n) ! i = replicate (length (snd (?vs ! n))) 0)
                   \<and> (\<forall>v. nolick_prediction_raises ?C (snd (?vs ! n)) i v \<longrightarrow>
                        r2_nolick (nrecs ! n) ! i = v
                        \<and> weights_nolick (nrecs ! n) ! i = replicate 9 0
                        \<and> predict_y_nolick (nrecs ! n) ! i = replicate (length (snd (?vs ! n))) 0)
                   \<and> (\<forall>res p v. nolick_shift_succeeds ?C (snd (?vs ! n)) i res p v \<longrightarrow>
                        r2_nolick (nrecs ! n) ! i = v
                        \<and> weights_nolick (nrecs ! n) ! i = params res
                        \<and> predict_y_nolick (nrecs ! n) ! i = p))"
    by blast
  from hs have h0: "\<forall>i<length taus.
                     (fit_raises ?C [0, 2] i \<longrightarrow>
                        r2_nolick (nrecs ! 0) ! i = Fin 0
                        \<and> weights_nolick (nrecs ! 0) ! i = replicate 9 0
                        \<and> predict_y_nolick (nrecs ! 0) ! i = [0, 0])
                   \<and> (\<forall>v. nolick_prediction_raises ?C [0, 2] i v \<longrightarrow>
                        r2_nolick (nrecs ! 0) ! i = v
                        \<and> weights_nolick (nrecs ! 0) ! i = replicate 9 0
                        \<and> predict_y_nolick (nrecs ! 0) ! i = [0, 0])
                   \<and> (\<forall>res p v. nolick_shift_succeeds ?C [0, 2] i res p v \<longrightarrow>
                        r2_nolick (nrecs ! 0) ! i = v
                        \<and> weights_nolick (nrecs ! 0) ! i = params res
                        \<and> predict_y_nolick (nrecs ! 0) ! i = p)"
    by simp
  from h0 l5 f5 have c5: "r2_nolick (nrecs ! 0) ! 5 = Fin 0
      \<and> weights_nolick (nrecs ! 0) ! 5 = replicate 9 0
      \<and> predict_y_nolick (nrecs ! 0) ! 5 = [0, 0]"
    by blast
  from h0 l6 n6 have c6: "r2_nolick (nrecs ! 0) ! 6 = Fin (1 / 2)
      \<and> weights_nolick (nrecs ! 0) ! 6 = params stub_result" by blast
  have B: "\<exists>recs. nolick_units ?C ?vs = Inr recs
       \<and> length recs = 1
       \<and> r2_nolick (recs ! 0) ! 5 = Fin 0
       \<and> weights_nolick (recs ! 0) ! 5 = replicate 9 0
       \<and> predict_y_nolick (recs ! 0) ! 5 = [0, 0]
       \<and> r2_nolick (recs ! 0) ! 6 = Fin (1 / 2)
       \<and> weights_nolick (recs ! 0) ! 6 = replicate 9 1"
    using h c5 c6 by (intro exI [of _ nrecs]) (simp add: stub_result_def)
  from main' obtain drecs where dg: "glmfit_units ?D ?us = Inr drecs"
    and dgs: "\<forall>n<length ?us. unit_key (drecs ! n) = fst (?us ! n)
                \<and> (\<forall>i<length taus.
                     (\<exists>s. glmfit_alone ?D (fst (snd (?us ! n))) (snd (snd (?us ! n))) i = Inr s
                          \<and> r2 (drecs ! n) ! i = arrays s 0 ! i
                          \<and> r2_t (drecs ! n) ! i = arrays s 0 ! i
                          \<and> weights (drecs ! n) ! i = weights_t s ! i
                          \<and> predict_y (drecs ! n) ! i = predict_ys s ! i)
                   \<and> (fit_raises ?D (fst (snd (?us ! n))) i \<longrightarrow>
                        r2 (drecs ! n) ! i = Fin 0 \<and> r2_t (drecs ! n) ! i = Fin 0
                        \<and> weights (drecs ! n) ! i = replicate 9 0
                        \<and> predict_y (drecs ! n) ! i = replicate (length (snd (snd (?us ! n)))) 0)
                   \<and> (\<forall>v. glmfit_held_out_raises ?D (fst (snd (?us ! n)))
                              (snd (snd (?us ! n))) i v \<longrightarrow>
                        r2 (drecs ! n) ! i = v
                        \<and> weights (drecs ! n) ! i = replicate 9 0
                        \<and> predict_y (drecs ! n) ! i = replicate (length (snd (snd (?us ! n)))) 0)
                   \<and> (\<forall>res p v. glmfit_shift_succeeds ?D (fst (snd (?us ! n)))
                                  (snd (snd (?us ! n))) i res p v \<longrightarrow>
                        r2_t (drecs ! n) ! i = v
                        \<and> weights (drecs ! n) ! i = params res
                        \<and> predict_y (drecs ! n) ! i = p))"
    by blast
  from dgs have dg0: "\<forall>i<length taus.
                     (fit_raises ?D [0, 2] i \<longrightarrow>
                        r2 (drecs ! 0) ! i = Fin 0 \<and> r2_t (drecs ! 0) ! i = Fin 0
                        \<and> weights (drecs ! 0) ! i = replicate 9 0
                        \<and> predict_y (drecs ! 0) ! i = [0, 0])
                   \<and> (\<forall>v. glmfit_held_out_raises ?D [0, 2] [0, 2] i v \<longrightarrow>
                        r2 (drecs ! 0) ! i = v
                        \<and> weights (drecs ! 0) ! i = replicate 9 0
                        \<and> predict_y (drecs ! 0) ! i = [0, 0])
                   \<and> (\<forall>res p v. glmfit_shift_succeeds ?D [0, 2] [0, 2] i res p v \<longrightarrow>
                        r2_t (drecs ! 0) ! i = v
                        \<and> weights (drecs ! 0) ! i = params res
                        \<and> predict_y (drecs ! 0) ! i = p)"
    by simp
  from dg0 l5 h5 have e5: "r2 (drecs ! 0) ! 5 = Fin (1 / 2)
      \<and> weights (drecs ! 0) ! 5 = replicate 9 0 \<and> predict_y (drecs ! 0) ! 5 = [0, 0]"
    by blast
  have C: "\<exists>recs. glmfit_units ?D ?us = Inr recs
       \<and> r2 (recs ! 0) ! 5 = Fin (1 / 2)
       \<and> weights (recs ! 0) ! 5 = replicate 9 0 \<and> predict_y (recs ! 0) ! 5 = [0, 0]"
    using dg e5 by (intro exI [of _ drecs]) simp
  from main' obtain erecs where dh: "nolick_units ?D ?vs = Inr erecs"
    and dhs: "\<forall>n<length ?vs. nl_unit_key (erecs ! n) = fst (?vs ! n)
                \<and> (\<forall>i<length taus.
                     (\<exists>s. nolick_alone ?D (snd (?vs ! n)) i = Inr s
                          \<and> r2_nolick (erecs ! n) ! i = arrays s 0 ! i
                          \<and> weights_nolick (erecs ! n) ! i = weights_t s ! i
                          \<and> predict_y_nolick (erecs ! n) ! i = predict_ys s ! i)
                   \<and> (fit_raises ?D (snd (?vs ! n)) i \<longrightarrow>
                        r2_nolick (erecs ! n) ! i = Fin 0
                        \<and> weights_nolick (erecs ! n) ! i = replicate 9 0
                        \<and> predict_y_nolick (erecs ! n) ! i = replicate (length (snd (?vs ! n))) 0)
                   \<and> (\<forall>v. nolick_prediction_raises ?D (snd (?vs ! n)) i v \<longrightarrow>
                        r2_nolick (erecs ! n) ! i = v
                        \<and> weights_nolick (erecs ! n) ! i = replicate 9 0
                        \<and> predict_y_nolick (erecs ! n) ! i = replicate (length (snd (?vs ! n))) 0)
                   \<and> (\<forall>res p v. nolick_shift_succeeds ?D (snd (?vs ! n)) i res p v \<longrightarrow>
                        r2_nolick (erecs ! n) ! i = v
                        \<and> weights_nolick (erecs ! n) ! i = params res
                        \<and> predict_y_nolick (erecs ! n) ! i = p))"
    by blast
  from dhs have dh0: "\<forall>i<length taus.
                     (fit_raises ?D [0, 2] i \<longrightarrow>
                        r2_nolick (erecs ! 0) ! i = Fin 0
                        \<and> weights_nolick (erecs ! 0) ! i = replicate 9 0
                        \<and> predict_y_nolick (erecs ! 0) ! i = [0, 0])
                   \<and> (\<forall>v. nolick_prediction_raises ?D [0, 2] i v \<longrightarrow>
                        r2_nolick (erecs ! 0) ! i = v
                        \<and> weights_nolick (erecs ! 0) ! i = replicate 9 0
                        \<and> predict_y_nolick (erecs ! 0) ! i = [0, 0])
                   \<and> (\<forall>res p v. nolick_shift_succeeds ?D [0, 2] i res p v \<longrightarrow>
                        r2_nolick (erecs ! 0) ! i = v
                        \<and> weights_nolick (erecs ! 0) ! i = params res
                        \<and> predict_y_nolick (erecs ! 0) ! i = p)"
    by simp
  from dh0 l5 p5 have q5: "r2_nolick (erecs ! 0) ! 5 = Fin (1 / 2)
      \<and> weights_nolick (erecs ! 0) ! 5 = replicate 9 0
      \<and> predict_y_nolick (erecs ! 0) ! 5 = [0, 0]"
    by blast
  have D: "\<exists>recs. nolick_units ?D ?vs = Inr recs
       \<and> r2_nolick (recs ! 0) ! 5 = Fin (1 / 2)
       \<and> weights_nolick (recs ! 0) ! 5 = replicate 9 0
       \<and> predict_y_nolick (recs ! 0) ! 5 = [0, 0]"
    using dh q5 by (intro exI [of _ erecs]) simp
  from A B C D show ?thesis by (intro conjI)
qed

subsection \<open>Histograms and tuning curves\<close>

lemma list_min_Min: "a \<noteq> [] \<Longrightarrow> list_min a = Min (set a)"
  by (cases a) (simp_all add: list_min_def Min.set_eq_fold [symmetric])

lemma list_max_Max: "a \<noteq> [] \<Longrightarrow> list_max a = Max (set a)"
  by (cases a) (simp_all add: list_max_def Max.set_eq_fold [symmetric])

lemma hist_range_less: "fst (hist_range a) < snd (hist_range a)"
proof (cases "a = []")
  case True
  then show ?thesis by (simp add: hist_range_def Let_def)
next
  case False
  then have "list_min a \<le> list_max a"
    by (simp add: list_min_Min list_max_Max)
  then show ?thesis using False by (auto simp: hist_range_def Let_def)
qed

lemma hist_range_covers:
  assumes "x \<in> set a"
  shows "fst (hist_range a) \<le> x \<and> x \<le> snd (hist_range a)"
proof -
  from assms have ne: "a \<noteq> []" by auto
  have "Min (set a) \<le> x" and "x \<le> Max (set a)" using assms by simp_all
  then have "list_min a \<le> x" and "x \<le> list_max a"
    using ne by (simp_all add: list_min_Min list_max_Max)
  then show ?thesis using ne by (auto simp: hist_range_def Let_def)
qed

lemma hist_range_min_max:
  assumes "a \<noteq> []" and "Min (set a) < Max (set a)"
  shows "hist_range a = (Min (set a), Max (set a))"
  using assms by (simp add: hist_range_def Let_def list_min_Min list_max_Max)

lemma bin_index_iff_in_bin:
  assumes lohi: "lo < hi" and n: "0 < n" and x: "lo \<le> x" "x \<le> hi" and k: "k < n"
  shows "bin_index lo hi n x = k \<longleftrightarrow> in_bin lo hi n k x"
proof -
  define d where "d = hi - lo"
  define t where "t = (x - lo) * (real n / d)"
  have d: "0 < d" using lohi by (simp add: d_def)
  have rn: "0 < real n" using n by simp
  have t0: "0 \<le> t" using x d rn by (simp add: t_def)
  have E1: "real j \<le> t \<longleftrightarrow> lo + real j * d / real n \<le> x" for j
  proof -
    have "real j \<le> t \<longleftrightarrow> real j * d \<le> (x - lo) * real n"
      using d by (simp add: t_def pos_le_divide_eq)
    also have "\<dots> \<longleftrightarrow> real j * d / real n \<le> x - lo"
      using rn by (simp add: pos_divide_le_eq)
    finally show ?thesis by auto
  qed
  have E2: "t < real j \<longleftrightarrow> x < lo + real j * d / real n" for j
    using E1 [of j] by auto
  have E3: "t = real n \<longleftrightarrow> x = hi"
  proof -
    have "t = real n \<longleftrightarrow> (x - lo) * real n = real n * d"
      using d by (simp add: t_def nonzero_divide_eq_eq)
    also have "\<dots> \<longleftrightarrow> x - lo = d" using rn by auto
    finally show ?thesis by (auto simp: d_def)
  qed
  have tn: "t \<le> real n"
  proof -
    have "\<not> t < real n \<longrightarrow> \<not> x < hi"
      using E2 [of n] rn by (simp add: d_def)
    then show ?thesis using x E3 by fastforce
  qed
  have idx: "bin_index lo hi n x = (let j = nat \<lfloor>t\<rfloor> in if j = n then n - 1 else j)"
    by (simp add: bin_index_def t_def d_def)
  show ?thesis
  proof (cases "x = hi")
    case True
    then have "t = real n" using E3 by simp
    then have "bin_index lo hi n x = n - 1" by (simp add: idx)
    moreover have "in_bin lo hi n k x \<longleftrightarrow> Suc k = n"
    proof -
      have a: "lo + real k * (hi - lo) / real n \<le> x"
        using E1 [of k] \<open>t = real n\<close> k by (simp add: d_def)
      have b: "\<not> x < lo + real (Suc k) * (hi - lo) / real n"
        using E2 [of "Suc k"] \<open>t = real n\<close> k by (simp add: d_def)
      show ?thesis using a b True by (simp add: in_bin_def)
    qed
    ultimately show ?thesis using k by auto
  next
    case False
    then have tlt: "t < real n" using tn E3 by simp
    have fl: "\<lfloor>t\<rfloor> < int n" using tlt by (simp add: floor_less_iff)
    have fl0: "0 \<le> \<lfloor>t\<rfloor>" using t0 by simp
    have "nat \<lfloor>t\<rfloor> \<noteq> n" using fl fl0 by linarith
    then have "bin_index lo hi n x = nat \<lfloor>t\<rfloor>" by (simp add: idx Let_def)
    moreover have "nat \<lfloor>t\<rfloor> = k \<longleftrightarrow> \<lfloor>t\<rfloor> = int k" using fl0 by linarith
    moreover have "\<lfloor>t\<rfloor> = int k \<longleftrightarrow> real k \<le> t \<and> t < real (Suc k)"
      by (simp add: floor_eq_iff add.commute)
    moreover have "in_bin lo hi n k x \<longleftrightarrow> real k \<le> t \<and> t < real (Suc k)"
      using E1 [of k] E2 [of "Suc k"] False by (simp add: in_bin_def d_def)
    ultimately show ?thesis by auto
  qed
qed

lemma length_np_histogram: "length (fst (np_histogram a n)) = n"
  by (simp add: np_histogram_def Let_def)

lemma np_histogram_count:
  assumes "k < n"
  shows "fst (np_histogram a n) ! k
         = length (filter (in_bin (fst (hist_range a)) (snd (hist_range a)) n k) a)"
proof -
  let ?lo = "fst (hist_range a)" and ?hi = "snd (hist_range a)"
  have n: "0 < n" using assms by simp
  have "fst (np_histogram a n) ! k
        = length (filter (\<lambda>j. j = k) (map (bin_index ?lo ?hi n) a))"
    using assms by (simp add: np_histogram_def Let_def)
  also have "\<dots> = length (filter (\<lambda>x. bin_index ?lo ?hi n x = k) a)"
    by (simp add: filter_map comp_def)
  also have "filter (\<lambda>x. bin_index ?lo ?hi n x = k) a = filter (in_bin ?lo ?hi n k) a"
  proof (rule filter_cong [OF refl])
    fix x assume "x \<in> set a"
    then have "?lo \<le> x" "x \<le> ?hi" using hist_range_covers by auto
    then show "(bin_index ?lo ?hi n x = k) = in_bin ?lo ?hi n k x"
      using hist_range_less [of a] n assms by (intro bin_index_iff_in_bin)
  qed
  finally show ?thesis .
qed

lemma np_histogram_edge:
  "k \<le> n \<Longrightarrow> snd (np_histogram a n) ! k
     = fst (hist_range a) + real k * (snd (hist_range a) - fst (hist_range a)) / real n"
  by (simp add: np_histogram_def Let_def nth_append del: upt_Suc)

lemma rate_normalize_nth:
  "k < length counts \<Longrightarrow> k < length baseline \<Longrightarrow>
   rate_normalize counts baseline fs ! k = rate_value (counts ! k) (baseline ! k) fs"
  by (simp add: rate_normalize_def)

lemma rate_value_finite:
  "0 < b \<Longrightarrow> rate_value c b fs = Fin (real c / real b * fs)"
  by (simp add: rate_value_def)

lemma tuning_curve_tofitx_nth:
  assumes "k < n_bins"
  shows "fst (tuning_curve all_phase phase_s fs) ! k
         = fst (hist_range phase_s)
           + (real k + 1 / 2) * (snd (hist_range phase_s) - fst (hist_range phase_s)) / real n_bins"
proof -
  let ?lo = "fst (hist_range phase_s)" and ?hi = "snd (hist_range phase_s)"
  let ?edges = "snd (np_histogram phase_s n_bins)"
  have nb: "n_bins = 20" by (simp add: n_bins_def)
  have e0: "?edges ! 0 = ?lo" using np_histogram_edge [of 0 n_bins phase_s] by simp
  have e1: "?edges ! 1 = ?lo + (?hi - ?lo) / real n_bins"
    using np_histogram_edge [of 1 n_bins phase_s] by (simp add: nb)
  have ek: "?edges ! k = ?lo + real k * (?hi - ?lo) / real n_bins"
    using np_histogram_edge [of k n_bins phase_s] assms by simp
  have len: "length ?edges = Suc n_bins" by (simp add: np_histogram_def Let_def)
  have "fst (tuning_curve all_phase phase_s fs) ! k
        = butlast ?edges ! k + (?edges ! 1 - ?edges ! 0) / 2"
    using assms len by (simp add: tuning_curve_def Let_def)
  also have "butlast ?edges ! k = ?edges ! k"
    using assms len by (simp add: nth_butlast)
  finally have "fst (tuning_curve all_phase phase_s fs) ! k
        = ?edges ! k + (?edges ! 1 - ?edges ! 0) / 2" .
  then have "fst (tuning_curve all_phase phase_s fs) ! k
        = (?lo + real k * (?hi - ?lo) / real n_bins)
          + ((?lo + (?hi - ?lo) / real n_bins) - ?lo) / 2"
    unfolding e0 e1 ek .
  then show ?thesis by (simp add: nb field_simps)
qed

text \<open>
  C3 (as amended). Each of the two histograms uses 20 equal-width bins spanning that
  array's own range (its minimum to its maximum), the last bin closed on the right. For a
  bin whose baseline count is not zero, the tuning-curve value is the spike-phase count of
  the bin divided by the baseline count of the bin with the same number and multiplied by
  the sampling rate; the abscissa is the centre of the baseline bin.
\<close>

theorem tuning_curve_own_range_bins:
  assumes "k < n_bins" and "0 < count_in_bin phase_s k"
  shows "fst (snd (tuning_curve all_phase phase_s fs)) ! k
           = Fin (real (count_in_bin all_phase k) / real (count_in_bin phase_s k) * fs)
       \<and> snd (snd (tuning_curve all_phase phase_s fs)) ! k = count_in_bin phase_s k
       \<and> fst (tuning_curve all_phase phase_s fs) ! k
           = fst (hist_range phase_s)
             + (real k + 1 / 2) * (snd (hist_range phase_s) - fst (hist_range phase_s))
               / real n_bins
       \<and> (all_phase \<noteq> [] \<and> Min (set all_phase) < Max (set all_phase) \<longrightarrow>
            hist_range all_phase = (Min (set all_phase), Max (set all_phase)))
       \<and> (phase_s \<noteq> [] \<and> Min (set phase_s) < Max (set phase_s) \<longrightarrow>
            hist_range phase_s = (Min (set phase_s), Max (set phase_s)))"
proof -
  have c1: "fst (np_histogram all_phase n_bins) ! k = count_in_bin all_phase k"
    using assms(1) by (simp add: np_histogram_count count_in_bin_def)
  have c2: "fst (np_histogram phase_s n_bins) ! k = count_in_bin phase_s k"
    using assms(1) by (simp add: np_histogram_count count_in_bin_def)
  have y: "fst (snd (tuning_curve all_phase phase_s fs)) ! k
           = Fin (real (count_in_bin all_phase k) / real (count_in_bin phase_s k) * fs)"
    using assms c1 c2
    by (simp add: tuning_curve_def Let_def rate_normalize_nth length_np_histogram
        rate_value_finite)
  have b: "snd (snd (tuning_curve all_phase phase_s fs)) ! k = count_in_bin phase_s k"
    using c2 by (simp add: tuning_curve_def Let_def)
  note x = tuning_curve_tofitx_nth [OF assms(1), of all_phase phase_s fs]
  have r1: "all_phase \<noteq> [] \<and> Min (set all_phase) < Max (set all_phase) \<longrightarrow>
            hist_range all_phase = (Min (set all_phase), Max (set all_phase))"
    using hist_range_min_max by blast
  have r2: "phase_s \<noteq> [] \<and> Min (set phase_s) < Max (set phase_s) \<longrightarrow>
            hist_range phase_s = (Min (set phase_s), Max (set phase_s))"
    using hist_range_min_max by blast
  from y b x r1 r2 show ?thesis by blast
qed

lemma example_histograms:
  "fst (np_histogram [0, 1] n_bins) = [1, 0, 0, 0, 0, 0, 0, 0, 0, 0, 0, 0, 0, 0, 0, 0, 0, 0, 0, 1]"
  "fst (np_histogram [0, 1, 1, 1] n_bins) = [1, 0, 0, 0, 0, 0, 0, 0, 0, 0, 0, 0, 0, 0, 0, 0, 0, 0, 0, 3]"
  by code_simp+

theorem tuning_curve_own_range_bins_witness:
  "(0::nat) < n_bins \<and> 0 < count_in_bin [0, 1, 1, 1] 0
   \<and> fst (snd (tuning_curve [0, 1] [0, 1, 1, 1] 2)) ! 0 = Fin 2"
proof -
  have h1: "(0::nat) < n_bins" by (simp add: n_bins_def)
  have "fst (np_histogram [0, 1, 1, 1] n_bins) ! 0 = count_in_bin [0, 1, 1, 1] 0"
    using h1 by (simp add: np_histogram_count count_in_bin_def)
  then have b: "count_in_bin [0, 1, 1, 1] 0 = 1" by (simp add: example_histograms)
  have "fst (np_histogram [0, 1] n_bins) ! 0 = count_in_bin [0, 1] 0"
    using h1 by (simp add: np_histogram_count count_in_bin_def)
  then have a: "count_in_bin [0, 1] 0 = 1" by (simp add: example_histograms)
  have h2: "0 < count_in_bin [0, 1, 1, 1] 0" using b by simp
  from tuning_curve_own_range_bins [OF h1 h2, of "[0, 1]" 2]
  have "fst (snd (tuning_curve [0, 1] [0, 1, 1, 1] 2)) ! 0
        = Fin (real (count_in_bin [0, 1] 0) / real (count_in_bin [0, 1, 1, 1] 0) * 2)"
    by blast
  then have "fst (snd (tuning_curve [0, 1] [0, 1, 1, 1] 2)) ! 0 = Fin 2" by (simp add: a b)
  with h1 h2 show ?thesis by blast
qed

text \<open>
  Against C3 as first stated, with spike phases \<open>[0, 1]\<close>, all phases \<open>[0, 1, 1, 1]\<close> and
  sampling rate 2: the first tuning-curve value is \<open>1 / 1 * 2 = 2\<close>, where the claim's
  reading (divide by the rate) gives \<open>1 / 2\<close>; and the phase 1 is counted in the last bin
  of the data range \<open>[0, 1]\<close>, not in a bin of \<open>[0, 2 pi)\<close> (where it is in bin 3 and bin 19
  is empty).
\<close>

theorem tuning_curve_spec_counterexample:
  "fst (snd (tuning_curve [0, 1] [0, 1, 1, 1] 2)) ! 0 = Fin 2
   \<and> tuning_y_spec [0, 1] [0, 1, 1, 1] 2 ! 0 = 1 / 2
   \<and> fst (np_histogram [0, 1] n_bins) ! 19 = 1
   \<and> spec_bin_count [0, 1] 19 = 0"
proof -
  have a: "fst (snd (tuning_curve [0, 1] [0, 1, 1, 1] 2)) ! 0 = Fin 2"
    by (simp add: tuning_curve_def Let_def example_histograms rate_normalize_def
        rate_value_def)
  have p1: "\<not> (1 < 2 * pi / 20)" using pi_less_4 by simp
  have b: "tuning_y_spec [0, 1] [0, 1, 1, 1] 2 ! 0 = 1 / 2"
    using p1 by (simp add: tuning_y_spec_def spec_bin_count_def upt_rec [of 0 "numeral _"])
  have c: "fst (np_histogram [0, 1] n_bins) ! 19 = 1" by (simp add: example_histograms)
  have p2: "\<not> (2 * pi * 19 / 20 \<le> 1)" and p3: "\<not> (2 * pi * 19 / 20 \<le> 0)"
    using pi_ge_two by simp_all
  have d: "spec_bin_count [0, 1] 19 = 0"
    using p2 p3 by (simp add: spec_bin_count_def)
  from a b c d show ?thesis by blast
qed

subsection \<open>Permutation test\<close>

lemma gen_state_0: "gen_state randint pop 0 g = g"
  by (simp add: gen_state_def)

lemma gen_state_Suc:
  "gen_state randint pop (Suc k) g = gen_state randint pop k (snd (randint g pop))"
  by (simp add: gen_state_def funpow_Suc_right del: funpow.simps)

lemma gen_draw_0: "gen_draw randint pop 0 g = fst (randint g pop)"
  by (simp add: gen_draw_def gen_state_def)

lemma gen_draw_Suc:
  "gen_draw randint pop (Suc k) g = gen_draw randint pop k (snd (randint g pop))"
  by (simp add: gen_draw_def gen_state_Suc)

lemma gen_state_add:
  "gen_state randint pop (a + b) g = gen_state randint pop b (gen_state randint pop a g)"
  by (simp add: gen_state_def funpow_add add.commute [of a b])

lemma gen_draw_add:
  "gen_draw randint pop (a + j) g = gen_draw randint pop j (gen_state randint pop a g)"
  by (simp add: gen_draw_def gen_state_add)

lemma draw_indices_gen:
  "draw_indices randint pop sz g
   = (map (\<lambda>j. gen_draw randint pop j g) [0..<sz], gen_state randint pop sz g)"
proof (induction sz arbitrary: g)
  case 0
  show ?case by (simp add: gen_state_0)
next
  case (Suc sz)
  have "map (\<lambda>j. gen_draw randint pop j g) [0..<Suc sz]
        = gen_draw randint pop 0 g # map (\<lambda>j. gen_draw randint pop (Suc j) g) [0..<sz]"
    by (simp only: upt_conv_Cons [of 0 "Suc sz"] map_Suc_upt [symmetric] list.map map_map comp_def)
  then show ?case
    using Suc.IH [of "snd (randint g pop)"]
    by (simp add: Let_def gen_draw_0 gen_draw_Suc gen_state_Suc del: upt_Suc)
qed

lemma gen_draw_bound:
  assumes "\<forall>g n. 0 < n \<longrightarrow> fst (randint g n) < n" and "0 < pop"
  shows "gen_draw randint pop k g < pop"
  using assms by (simp add: gen_draw_def)

lemma random_choice_gen:
  assumes "a \<noteq> [] \<or> sz = 0"
  shows "random_choice randint a sz (gen_state randint (length a) k g)
         = Inr (map (\<lambda>j. a ! gen_draw randint (length a) (k + j) g) [0..<sz],
                gen_state randint (length a) (k + sz) g)"
  using assms
  by (auto simp: random_choice_def Let_def draw_indices_gen gen_draw_add gen_state_add)

lemma null_sample_props:
  assumes rand: "\<forall>g n. 0 < n \<longrightarrow> fst (randint g n) < n"
    and pop: "phase_s \<noteq> [] \<or> n_spk = 0"
  shows "length (null_sample randint phase_s n_spk g i) = n_spk
       \<and> set (null_sample randint phase_s n_spk g i) \<subseteq> set phase_s
       \<and> (\<forall>j<n_spk. null_sample randint phase_s n_spk g i ! j
                       = phase_s ! gen_draw randint (length phase_s) (i * n_spk + j) g
                   \<and> gen_draw randint (length phase_s) (i * n_spk + j) g < length phase_s)"
proof (cases "n_spk = 0")
  case True
  then show ?thesis by (simp add: null_sample_def)
next
  case False
  with pop have "0 < length phase_s" by simp
  then have b: "gen_draw randint (length phase_s) k g < length phase_s" for k
    using gen_draw_bound [OF rand] by simp
  then show ?thesis by (auto simp: null_sample_def)
qed

lemma perm_loop_props:
  assumes pop: "phase_s \<noteq> [] \<or> n_spk = 0"
    and m: "m \<le> length d0"
  shows "\<exists>d. for_loop (perm_step randint cpt phase_s n_spk baseline tofitx fs) [0..<m] (d0, g0)
             = Inr (d, gen_state randint (length phase_s) (m * n_spk) g0)
           \<and> length d = length d0
           \<and> (\<forall>i<m. d ! i = snd (cpt tofitx
                     (rate_normalize
                        (fst (np_histogram (null_sample randint phase_s n_spk g0 i) n_bins))
                        baseline fs)))"
  using m
proof (induction m)
  case 0
  show ?case by (simp add: gen_state_0)
next
  case (Suc m)
  let ?body = "perm_step randint cpt phase_s n_spk baseline tofitx fs"
  let ?val = "\<lambda>s. snd (cpt tofitx (rate_normalize (fst (np_histogram s n_bins)) baseline fs))"
  let ?s = "null_sample randint phase_s n_spk g0"
  let ?g = "\<lambda>k. gen_state randint (length phase_s) k g0"
  from Suc obtain d
    where loop: "for_loop ?body [0..<m] (d0, g0) = Inr (d, ?g (m * n_spk))"
      and len: "length d = length d0"
      and old: "\<forall>i<m. d ! i = ?val (?s i)"
    by auto
  have rc: "random_choice randint phase_s n_spk (?g (m * n_spk))
            = Inr (?s m, ?g (Suc m * n_spk))"
    using random_choice_gen [OF pop, of randint "m * n_spk" g0]
    by (simp add: null_sample_def add.commute)
  have step: "?body m (d, ?g (m * n_spk)) = Inr (d[m := ?val (?s m)], ?g (Suc m * n_spk))"
    using rc by (simp add: perm_step_def Let_def)
  have "for_loop ?body [0..<Suc m] (d0, g0) = Inr (d[m := ?val (?s m)], ?g (Suc m * n_spk))"
    using loop step by (simp add: for_loop_append)
  moreover have "length (d[m := ?val (?s m)]) = length d0" using len by simp
  moreover have "\<forall>i<Suc m. d[m := ?val (?s m)] ! i = ?val (?s i)"
  proof (intro allI impI)
    fix i assume "i < Suc m"
    then consider "i < m" | "i = m" by linarith
    then show "d[m := ?val (?s m)] ! i = ?val (?s i)"
    proof cases
      case 1
      then show ?thesis using old by simp
    next
      case 2
      then show ?thesis using len Suc.prems by simp
    qed
  qed
  ultimately show ?case by blast
qed

text \<open>
  C8. With a generator whose draws are below the bound asked for, and a non-empty phase
  population (or no spike phases), the permutation test returns a null distribution of
  exactly 100 values. Value \<open>i\<close> is the modulation index of the tuning curve of null sample
  \<open>i\<close>: as many phases as there are spike-aligned phases, phase \<open>j\<close> of it being the element
  of the full phase population at the index that the generator gives at its draw number
  \<open>i * n_spk + j\<close> (nothing is removed from the population between draws, so a phase can
  be drawn again); the sample is histogrammed into 20 bins and normalised by the same
  baseline counts and sampling rate as the observed curve. The reported p-value is the
  p-value that the rank test returns for the observed modulation index as first sample,
  these 100 values as second sample and the alternative \<open>greater\<close>.
\<close>

theorem permutation_null_distribution:
  assumes "\<forall>g n. 0 < n \<longrightarrow> fst (randint g n) < n"
    and "phase_s \<noteq> [] \<or> all_phase = []"
  shows "\<exists>di_distr.
           permutation_test randint cpt mwu all_phase phase_s fs g
             = Inr (di_distr,
                    snd (mwu (snd (cpt (fst (tuning_curve all_phase phase_s fs))
                                       (fst (snd (tuning_curve all_phase phase_s fs)))))
                             di_distr Greater))
           \<and> length di_distr = 100
           \<and> fst (snd (tuning_curve all_phase phase_s fs))
               = rate_normalize (fst (np_histogram all_phase n_bins))
                   (fst (np_histogram phase_s n_bins)) fs
           \<and> (\<forall>i<100.
                di_distr ! i
                  = snd (cpt (fst (tuning_curve all_phase phase_s fs))
                      (rate_normalize
                         (fst (np_histogram
                                 (null_sample randint phase_s (length all_phase) g i) n_bins))
                         (fst (np_histogram phase_s n_bins)) fs))
                \<and> length (null_sample randint phase_s (length all_phase) g i) = length all_phase
                \<and> set (null_sample randint phase_s (length all_phase) g i) \<subseteq> set phase_s
                \<and> (\<forall>j<length all_phase.
                      null_sample randint phase_s (length all_phase) g i ! j
                        = phase_s ! gen_draw randint (length phase_s)
                                      (i * length all_phase + j) g
                      \<and> gen_draw randint (length phase_s) (i * length all_phase + j) g
                          < length phase_s))"
proof -
  let ?tc = "tuning_curve all_phase phase_s fs"
  let ?base = "fst (np_histogram phase_s n_bins)"
  let ?n = "length all_phase"
  let ?val = "\<lambda>s. snd (cpt (fst ?tc) (rate_normalize (fst (np_histogram s n_bins)) ?base fs))"
  have base: "snd (snd ?tc) = ?base" by (simp add: tuning_curve_def Let_def)
  have obs: "fst (snd ?tc) = rate_normalize (fst (np_histogram all_phase n_bins)) ?base fs"
    by (simp add: tuning_curve_def Let_def)
  have pop: "phase_s \<noteq> [] \<or> ?n = 0" using assms(2) by simp
  have m: "n_perm \<le> length (replicate n_perm (Fin 0))" by simp
  from perm_loop_props [OF pop m, of randint cpt ?base "fst ?tc" fs g]
  obtain d
    where loop: "for_loop (perm_step randint cpt phase_s ?n ?base (fst ?tc) fs) [0..<n_perm]
                    (replicate n_perm (Fin 0), g)
                 = Inr (d, gen_state randint (length phase_s) (n_perm * ?n) g)"
      and len: "length d = n_perm"
      and vals: "\<forall>i<n_perm. d ! i = ?val (null_sample randint phase_s ?n g i)"
    by auto
  have res: "permutation_test randint cpt mwu all_phase phase_s fs g
             = Inr (d, snd (mwu (snd (cpt (fst ?tc) (fst (snd ?tc)))) d Greater))"
    using loop by (simp add: permutation_test_def Let_def base)
  have each: "d ! i = ?val (null_sample randint phase_s ?n g i)
                \<and> length (null_sample randint phase_s ?n g i) = ?n
                \<and> set (null_sample randint phase_s ?n g i) \<subseteq> set phase_s
                \<and> (\<forall>j<?n. null_sample randint phase_s ?n g i ! j
                        = phase_s ! gen_draw randint (length phase_s) (i * ?n + j) g
                      \<and> gen_draw randint (length phase_s) (i * ?n + j) g < length phase_s)"
    if "i < 100" for i
    using vals that null_sample_props [OF assms(1) pop, of g i] by (simp add: n_perm_def)
  show ?thesis
  proof (rule exI [of _ d], intro conjI allI impI)
    show "permutation_test randint cpt mwu all_phase phase_s fs g
             = Inr (d, snd (mwu (snd (cpt (fst ?tc) (fst (snd ?tc)))) d Greater))"
      by (rule res)
    show "length d = 100" using len by (simp add: n_perm_def)
    show "fst (snd ?tc) = rate_normalize (fst (np_histogram all_phase n_bins)) ?base fs"
      by (rule obs)
  qed (use each in blast)+
qed

lemma example_null_curves:
  "null_sample stub_randint [0, 1, 2, 3, 4, 5, 6, 7, 8, 9, 10, 11, 12, 13, 14, 15, 16, 17, 18, 19]
     3 0 0 = [0, 1, 4]"
  "null_sample stub_randint [0, 1, 2, 3, 4, 5, 6, 7, 8, 9, 10, 11, 12, 13, 14, 15, 16, 17, 18, 19]
     3 0 3 = [1, 0, 1]"
  "fst (np_histogram [0, 1, 2, 3, 4, 5, 6, 7, 8, 9, 10, 11, 12, 13, 14, 15, 16, 17, 18, 19] n_bins)
   = replicate 20 1"
  "snd (stub_phase_tuning
          (fst (tuning_curve [0, 7, 19]
                  [0, 1, 2, 3, 4, 5, 6, 7, 8, 9, 10, 11, 12, 13, 14, 15, 16, 17, 18, 19] 2))
          (fst (snd (tuning_curve [0, 7, 19]
                  [0, 1, 2, 3, 4, 5, 6, 7, 8, 9, 10, 11, 12, 13, 14, 15, 16, 17, 18, 19] 2))))
   = Fin (209 / 4)"
  "snd (stub_phase_tuning
          (fst (tuning_curve [0, 7, 19]
                  [0, 1, 2, 3, 4, 5, 6, 7, 8, 9, 10, 11, 12, 13, 14, 15, 16, 17, 18, 19] 2))
          (rate_normalize (fst (np_histogram [0, 1, 4] n_bins)) (replicate 20 1) 2))
   = Fin (969 / 20)"
  "snd (stub_phase_tuning
          (fst (tuning_curve [0, 7, 19]
                  [0, 1, 2, 3, 4, 5, 6, 7, 8, 9, 10, 11, 12, 13, 14, 15, 16, 17, 18, 19] 2))
          (rate_normalize (fst (np_histogram [1, 0, 1] n_bins)) (replicate 20 1) 2))
   = Fin (1501 / 20)"
  by code_simp+

theorem permutation_null_distribution_witness:
  "\<exists>di_distr.
     permutation_test stub_randint stub_phase_tuning stub_mannwhitneyu [0, 7, 19]
       [0, 1, 2, 3, 4, 5, 6, 7, 8, 9, 10, 11, 12, 13, 14, 15, 16, 17, 18, 19] 2 0
       = Inr (di_distr, snd (stub_mannwhitneyu (Fin (209 / 4)) di_distr Greater))
     \<and> length di_distr = 100
     \<and> di_distr ! 0 = Fin (969 / 20) \<and> di_distr ! 3 = Fin (1501 / 20)"
proof -
  let ?ps = "[0, 1, 2, 3, 4, 5, 6, 7, 8, 9, 10, 11, 12, 13, 14, 15, 16, 17, 18, 19 :: real]"
  have h1: "\<forall>g n. 0 < n \<longrightarrow> fst (stub_randint g n) < n"
    by (simp add: stub_randint_def)
  have h2: "?ps \<noteq> [] \<or> [0, 7, 19 :: real] = []" by simp
  from permutation_null_distribution [OF h1 h2, of stub_phase_tuning stub_mannwhitneyu 2 0]
  obtain d where res: "permutation_test stub_randint stub_phase_tuning stub_mannwhitneyu
                         [0, 7, 19] ?ps 2 0
                       = Inr (d, snd (stub_mannwhitneyu
                           (snd (stub_phase_tuning (fst (tuning_curve [0, 7, 19] ?ps 2))
                              (fst (snd (tuning_curve [0, 7, 19] ?ps 2))))) d Greater))"
    and len: "length d = 100"
    and vals: "\<forall>i<100. d ! i
                 = snd (stub_phase_tuning (fst (tuning_curve [0, 7, 19] ?ps 2))
                     (rate_normalize
                        (fst (np_histogram
                                (null_sample stub_randint ?ps (length [0, 7, 19 :: real]) 0 i)
                                n_bins))
                        (fst (np_histogram ?ps n_bins)) 2))"
    by blast
  have e0: "null_sample stub_randint ?ps (length [0, 7, 19 :: real]) 0 0 = [0, 1, 4]"
    and e3: "null_sample stub_randint ?ps (length [0, 7, 19 :: real]) 0 3 = [1, 0, 1]"
    using example_null_curves(1,2) by (simp_all add: numeral_3_eq_3)
  have i0: "(0::nat) < 100" and i3: "(3::nat) < 100" by simp_all
  note a0 = vals [rule_format, OF i0] and a3 = vals [rule_format, OF i3]
  have v0: "d ! 0 = Fin (969 / 20)"
    by (simp only: a0 e0 example_null_curves)
  have v3: "d ! 3 = Fin (1501 / 20)"
    by (simp only: a3 e3 example_null_curves)
  from res len v0 v3 show ?thesis
    by (intro exI [of _ d]) (simp add: example_null_curves)
qed

subsection \<open>Bout detection\<close>

text \<open>
  C7. On a trace with no tongue detection, and on a trace holding one uninterrupted bout
  of six licks, no position is flagged as a bout start, the array of bout starts is empty,
  and the read of its element 0 raises IndexError: no onset or offset array is produced and
  the first onset is not forced in. The whisk-bout detector fails in the same way.
\<close>

theorem bout_detector_raises_on_single_bout:
  "lick_bouts (replicate 4 0) = Inl IndexError
   \<and> lick_bouts (lick_train 6) = Inl IndexError
   \<and> lick_onset_idx_of (snd (band_candidates 3 9 (crossing_times (1 / 2) (lick_train 6))))
       = [0, 1, 2]
   \<and> whisk_bouts (replicate 4 0) = Inl IndexError"
  by code_simp

end
